theory Spec2Isabelle
  imports Complex_Main
begin

section \<open>Data model\<close>

text \<open>
  The evaluation engine of \<^verbatim>\<open>metrics.py\<close> (class \<^verbatim>\<open>Metrics\<close>). A batch is a numpy array
  of shape \<^verbatim>\<open>(num_points, dim1, dim2, dim3)\<close>: a list of samples, each sample a
  \<^verbatim>\<open>dim1 \<times> dim2 \<times> dim3\<close> nest of numbers. Floating-point numbers are read as reals; where
  numpy would produce \<^verbatim>\<open>nan\<close> (the mean, median or percentile of an empty array) the
  numpy function of the model returns \<open>None\<close>.
\<close>

type_synonym sample = "real list list list"
type_synonym batch = "sample list"
type_synonym point = "real list"

text \<open>
  Exceptions of the Python run. \<open>NanValue\<close> is not an exception: it marks the place where
  the source would go on computing with a \<^verbatim>\<open>nan\<close>, which the real-valued model does not
  follow any further.
\<close>

datatype error = AssertionError | ValueError | ZeroDivisionError | TypeError | NanValue

text \<open>The instance fields of \<^verbatim>\<open>Metrics\<close>, set to \<^verbatim>\<open>None\<close> by \<^verbatim>\<open>__init__\<close>.\<close>

record metrics =
  l2s :: "real list option"
  Qz :: "real list list option"

text \<open>The options the evaluators read from the \<^verbatim>\<open>opts\<close> dictionary.\<close>

record opts =
  dataset :: string
  input_normalize_sym :: bool
  tf_run_batch_size :: int
  digit_classification_threshold :: real
  mnist3_to_channels :: bool

text \<open>
  The value returned by \<^verbatim>\<open>evaluate\<close>: the pair \<^verbatim>\<open>(log_p, C)\<close> of the continuous
  evaluator or the 4-tuple \<^verbatim>\<open>(JS, C, C_actual, conf)\<close> of the discrete ones.
\<close>

datatype metric_result =
    LogpCoverage real real
  | ModeMetrics real real real real

section \<open>The numpy functions the evaluators call\<close>

definition flatten :: "sample \<Rightarrow> point" where
  "flatten x = concat (concat x)"

text \<open>
  \<^verbatim>\<open>np.reshape(a, [len(a), -1])\<close>: one row per sample. With \<^verbatim>\<open>len(a) = 0\<close> the unknown
  dimension cannot be inferred and numpy raises \<^verbatim>\<open>ValueError\<close>.
\<close>

definition np_reshape :: "batch \<Rightarrow> error + point list" where
  "np_reshape a = (if length a = 0 then Inl ValueError else Inr (map flatten a))"

definition np_mean :: "real list \<Rightarrow> real option" where
  "np_mean xs = (if xs = [] then None else Some (sum_list xs / real (length xs)))"

definition np_median :: "real list \<Rightarrow> real option" where
  "np_median xs =
     (if xs = [] then None
      else let s = sort xs; n = length xs
           in Some (if even n then (s ! (n div 2 - 1) + s ! (n div 2)) / 2
                    else s ! (n div 2)))"

text \<open>
  \<^verbatim>\<open>np.percentile(a, q)\<close> with numpy's default linear interpolation between the two
  nearest order statistics.
\<close>

definition np_percentile :: "real list \<Rightarrow> real \<Rightarrow> real option" where
  "np_percentile xs q =
     (if xs = [] then None
      else let s = sort xs; n = length xs;
               pos = q / 100 * real (n - 1);
               below = nat \<lfloor>pos\<rfloor>;
               above = min (below + 1) (n - 1);
               w = pos - real below
           in Some (s ! below * (1 - w) + s ! above * w))"

text \<open>\<^verbatim>\<open>np.mean(a <= t)\<close>: the fraction of the entries of \<open>a\<close> that are at most \<open>t\<close>.\<close>

definition mean_le :: "real list \<Rightarrow> real \<Rightarrow> real option" where
  "mean_le a t = np_mean (map (\<lambda>x. if x \<le> t then 1 else 0) a)"

section \<open>The continuous evaluator\<close>

text \<open>
  The density backend, \<^verbatim>\<open>KernelDensity(kernel='gaussian', bandwidth=b).fit(X)\<close> of
  scikit-learn, is a parameter of the model: given the bandwidth and the rows to fit, it
  raises or returns the fitted estimator, whose \<^verbatim>\<open>score_samples\<close> gives every row its
  log-density.
\<close>

type_synonym backend = "real \<Rightarrow> point list \<Rightarrow> error + (point \<Rightarrow> real)"

text \<open>
  \<^verbatim>\<open>dist = fake_points[:-1] - fake_points[1:]; dist = dist * dist;
  dist = np.sqrt(np.sum(dist, axis=(1, 2, 3)))\<close>
\<close>

definition sq_diff_sum :: "sample \<Rightarrow> sample \<Rightarrow> real" where
  "sq_diff_sum x y = sum_list (map (\<lambda>(a, b). (a - b) * (a - b)) (zip (flatten x) (flatten y)))"

definition consecutive_dist :: "batch \<Rightarrow> real list" where
  "consecutive_dist fake_points =
     map (\<lambda>(x, y). sqrt (sq_diff_sum x y)) (zip (butlast fake_points) (tl fake_points))"

text \<open>\<^verbatim>\<open>b_grid = bandwidth * (2. ** (np.arange(14) - 7.))\<close>; a nan bandwidth stays nan.\<close>

definition b_grid :: "real option \<Rightarrow> real option list" where
  "b_grid bandwidth =
     map (\<lambda>i. map_option (\<lambda>b. b * 2 powr (real i - 7)) bandwidth) [0..<14]"

text \<open>
  Constructing and fitting one estimator on the reshaped fake batch. The reshape raises on
  an empty batch; a nan bandwidth is where the model stops.
\<close>

definition fit_kde :: "backend \<Rightarrow> real option \<Rightarrow> batch \<Rightarrow> error + (point \<Rightarrow> real)" where
  "fit_kde kde bandwidth fake_points =
     (case np_reshape fake_points of
        Inl e \<Rightarrow> Inl e
      | Inr X \<Rightarrow> (case bandwidth of None \<Rightarrow> Inl NanValue | Some b \<Rightarrow> kde b X))"

text \<open>The mean log-density of the validation batch under the estimator of one candidate.\<close>

definition validation_score :: "backend \<Rightarrow> batch \<Rightarrow> batch \<Rightarrow> real option \<Rightarrow> error + real" where
  "validation_score kde fake_points validation_fake_points b =
     (case fit_kde kde b fake_points of
        Inl e \<Rightarrow> Inl e
      | Inr f \<Rightarrow>
          (case np_reshape validation_fake_points of
             Inl e \<Rightarrow> Inl e
           | Inr V \<Rightarrow> (case np_mean (map f V) of None \<Rightarrow> Inl NanValue | Some s \<Rightarrow> Inr s)))"

text \<open>
  The loop \<^verbatim>\<open>for _bandwidth in b_grid\<close>; its state is the pair
  \<^verbatim>\<open>(bandwidth, max_score)\<close>.
\<close>

fun grid_search ::
  "backend \<Rightarrow> batch \<Rightarrow> batch \<Rightarrow> real option list \<Rightarrow> real option \<times> real
     \<Rightarrow> error + (real option \<times> real)" where
  "grid_search kde fake_points validation_fake_points [] st = Inr st"
| "grid_search kde fake_points validation_fake_points (b # bs) (bandwidth, max_score) =
     (case validation_score kde fake_points validation_fake_points b of
        Inl e \<Rightarrow> Inl e
      | Inr score \<Rightarrow>
          grid_search kde fake_points validation_fake_points bs
            (if score > max_score then (b, score) else (bandwidth, max_score)))"

text \<open>Lines 111 to 130: the bandwidth the final estimator is built with.\<close>

definition select_bandwidth :: "backend \<Rightarrow> batch \<Rightarrow> batch option \<Rightarrow> error + real option" where
  "select_bandwidth kde fake_points validation_fake_points =
     (let bandwidth = np_median (consecutive_dist fake_points)
      in case validation_fake_points of
           None \<Rightarrow> Inr bandwidth
         | Some val \<Rightarrow>
             (case grid_search kde fake_points val (b_grid bandwidth) (bandwidth, - 1000000) of
                Inl e \<Rightarrow> Inl e
              | Inr (b, max_score) \<Rightarrow> Inr b))"

definition evaluate_vec ::
  "backend \<Rightarrow> batch \<Rightarrow> batch \<Rightarrow> batch option \<Rightarrow> error + (real \<times> real)" where
  "evaluate_vec kde real_points fake_points validation_fake_points =
     (case select_bandwidth kde fake_points validation_fake_points of
        Inl e \<Rightarrow> Inl e
      | Inr bandwidth \<Rightarrow>
     (case fit_kde kde bandwidth fake_points of
        Inl e \<Rightarrow> Inl e
      | Inr f \<Rightarrow>
     (case np_reshape fake_points of
        Inl e \<Rightarrow> Inl e
      | Inr F \<Rightarrow>
     (case np_percentile (map f F) 5 of
        None \<Rightarrow> Inl NanValue
      | Some threshold \<Rightarrow>
     (case np_reshape real_points of
        Inl e \<Rightarrow> Inl e
      | Inr R \<Rightarrow>
     (case mean_le (map f R) threshold of
        None \<Rightarrow> Inl NanValue
      | Some ratio_not_covered \<Rightarrow>
     (case np_mean (map f R) of
        None \<Rightarrow> Inl NanValue
      | Some log_p \<Rightarrow> Inr (log_p, 1 - ratio_not_covered))))))))"

section \<open>The discrete evaluators\<close>

text \<open>
  The pre-trained classifier restored from the model file is a parameter: for one image it
  gives the predicted digit (\<^verbatim>\<open>prediction\<close>) and the largest softmax probability
  (\<^verbatim>\<open>prob_max\<close>). \<open>None\<close> stands for a model file in which one of the four collections is
  empty, where the source's \<^verbatim>\<open>assert len(...) > 0, 'Failed to load pre-trained model'\<close>
  fails. One \<^verbatim>\<open>sess.run\<close> on a chunk, with dropout switched off, classifies every image
  of the chunk on its own.
\<close>

type_synonym classifier = "sample \<Rightarrow> nat \<times> real"

definition sess_run :: "classifier \<Rightarrow> batch \<Rightarrow> nat list \<times> real list" where
  "sess_run net batch_fake = (map (\<lambda>x. fst (net x)) batch_fake, map (\<lambda>x. snd (net x)) batch_fake)"

text \<open>\<^verbatim>\<open>fake_points / 2. + 0.5\<close>, entry by entry.\<close>

definition rescale_unit :: "batch \<Rightarrow> batch" where
  "rescale_unit a = map (map (map (map (\<lambda>v. v / 2 + 1 / 2)))) a"

text \<open>
  The chunks \<^verbatim>\<open>fake_points[idx * batch_size:end_idx]\<close> for \<^verbatim>\<open>idx\<close> in
  \<^verbatim>\<open>xrange(batches_num)\<close>, with \<^verbatim>\<open>batches_num = int(np.ceil((num_fake + 0.) / batch_size))\<close>:
  Python's float division raises on a zero batch size, and a negative one leaves the range
  empty.
\<close>

definition batch_slices :: "int \<Rightarrow> 'a list \<Rightarrow> error + 'a list list" where
  "batch_slices batch_size fake_points =
     (if batch_size = 0 then Inl ZeroDivisionError
      else let num_fake = length fake_points;
               batches_num = \<lceil>real num_fake / real_of_int batch_size\<rceil>;
               bs = nat batch_size
           in Inr (map (\<lambda>idx. let end_idx = min num_fake ((idx + 1) * bs)
                               in take (end_idx - idx * bs) (drop (idx * bs) fake_points))
                       [0..<nat batches_num]))"

text \<open>\<^verbatim>\<open>np.hstack\<close> and \<^verbatim>\<open>np.vstack\<close> raise on an empty list of arrays.\<close>

definition np_stack :: "'a list list \<Rightarrow> error + 'a list" where
  "np_stack arrays = (if arrays = [] then Inl ValueError else Inr (concat arrays))"

text \<open>Lines 192 to 212: labels, probabilities and confidence flags of the whole batch.\<close>

definition classify_mnist ::
  "classifier \<Rightarrow> opts \<Rightarrow> batch \<Rightarrow> error + (nat list \<times> real list \<times> bool list)" where
  "classify_mnist net opts fake_points =
     (case batch_slices (tf_run_batch_size opts) fake_points of
        Inl e \<Rightarrow> Inl e
      | Inr batches \<Rightarrow>
          (let thresh = digit_classification_threshold opts;
               runs = map (sess_run net) batches
           in case np_stack (map fst runs) of
                Inl e \<Rightarrow> Inl e
              | Inr result \<Rightarrow>
             (case np_stack (map snd runs) of
                Inl e \<Rightarrow> Inl e
              | Inr result_probs \<Rightarrow>
             (case np_stack (map (\<lambda>(res, prob). map (\<lambda>p. p > thresh) prob) runs) of
                Inl e \<Rightarrow> Inl e
              | Inr result_is_confident \<Rightarrow>
                  Inr (result, result_probs, result_is_confident)))))"

text \<open>\<^verbatim>\<open>digits[result_is_confident]\<close>: the entries whose flag is set.\<close>

definition masked :: "'a list \<Rightarrow> bool list \<Rightarrow> 'a list" where
  "masked xs flags = map fst (filter snd (zip xs flags))"

definition np_unique :: "nat list \<Rightarrow> nat list" where
  "np_unique xs = sort (remdups xs)"

text \<open>
  \<^verbatim>\<open>np.bincount(xs, minlength=m)\<close>: one bin for every label up to the largest one that
  occurs, and at least \<open>m\<close> bins.
\<close>

definition np_bincount :: "nat list \<Rightarrow> nat \<Rightarrow> nat list" where
  "np_bincount xs m =
     map (\<lambda>k. count_list xs k) [0..<max m (if xs = [] then 0 else Suc (fold max xs 0))]"

text \<open>\<^verbatim>\<open>phat = (phat + 0.) / np.sum(phat)\<close>\<close>

definition normalise :: "nat list \<Rightarrow> real list" where
  "normalise counts = map (\<lambda>c. real c / real (sum_list counts)) counts"

text \<open>Modelled from the spec: the Jensen-Shannon divergence that \<^verbatim>\<open>utils.js_div_uniform\<close>
  computes; the module \<^verbatim>\<open>utils\<close> is not among the sources. The spec gives
  \<open>JS(P, Q) = KL(P || M) / 2 + KL(Q || M) / 2\<close> with \<open>M = (P + Q) / 2\<close> and
  \<open>0 * log 0 = 0\<close>.
\<close>

definition kl_term :: "real \<Rightarrow> real \<Rightarrow> real" where
  "kl_term p m = (if p = 0 then 0 else p * ln (p / m))"

definition kl_div :: "real list \<Rightarrow> real list \<Rightarrow> real" where
  "kl_div P M = sum_list (map (\<lambda>(p, m). kl_term p m) (zip P M))"

definition js_divergence :: "real list \<Rightarrow> real list \<Rightarrow> real" where
  "js_divergence P Q =
     (let M = map (\<lambda>(p, q). (p + q) / 2) (zip P Q)
      in kl_div P M / 2 + kl_div Q M / 2)"

text \<open>Modelled from the spec: the uniform distribution over \<open>num_cat\<close> labels, laid out on
  the bins of the histogram it is compared with.
\<close>

definition uniform :: "nat \<Rightarrow> nat \<Rightarrow> real list" where
  "uniform num_cat bins = map (\<lambda>k. if k < num_cat then 1 / real num_cat else 0) [0..<bins]"

text \<open>Modelled from the spec: \<^verbatim>\<open>utils.js_div_uniform(p, num_cat)\<close>, missing with its module:
  the Jensen-Shannon divergence between the empirical histogram of the labels \<open>p\<close> it is
  passed and the uniform distribution over \<open>num_cat\<close> labels. Where the composite evaluator
  calls it without \<open>num_cat\<close>, the default is taken to be the 1000 labels of that variant.
\<close>

definition js_div_uniform :: "nat list \<Rightarrow> nat \<Rightarrow> real" where
  "js_div_uniform p num_cat =
     (let phat = normalise (np_bincount p num_cat)
      in js_divergence phat (uniform num_cat (length phat)))"

text \<open>
  Lines 241 to 258 and 378 to 393: the metrics from the labels, flags and mean confidence,
  for a label space of \<open>num_labels\<close> labels.
\<close>

definition mode_metrics ::
  "nat \<Rightarrow> nat list \<Rightarrow> bool list \<Rightarrow> real \<Rightarrow> error + (real \<times> real \<times> real \<times> real)" where
  "mode_metrics num_labels digits result_is_confident conf =
     (if length (filter (\<lambda>c. c) result_is_confident) = 0 then Inr (2, 0, 0, conf)
      else let C_actual =
                 real (length (np_unique (masked digits result_is_confident))) / real num_labels;
               JS = js_div_uniform digits num_labels;
               phat = normalise (np_bincount (masked digits result_is_confident) num_labels)
           in case np_percentile phat 5 of
                None \<Rightarrow> Inl NanValue
              | Some threshold \<Rightarrow>
                  (case mean_le phat threshold of
                     None \<Rightarrow> Inl NanValue
                   | Some ratio_not_covered \<Rightarrow> Inr (JS, 1 - ratio_not_covered, C_actual, conf)))"

text \<open>
  \<^verbatim>\<open>_evaluate_mnist\<close>. The plot of one image per detected mode, the logging and the
  rescaling back after classification do not enter the returned tuple and are left out.
\<close>

definition evaluate_mnist ::
  "classifier option \<Rightarrow> opts \<Rightarrow> batch \<Rightarrow> error + (real \<times> real \<times> real \<times> real)" where
  "evaluate_mnist model opts fake_points =
     (if \<not> length fake_points > 0 then Inl AssertionError
      else let num_fake = length fake_points;
               fake = (if input_normalize_sym opts then rescale_unit fake_points
                       else fake_points)
           in case model of
                None \<Rightarrow> Inl AssertionError
              | Some net \<Rightarrow>
             (case classify_mnist net opts fake of
                Inl e \<Rightarrow> Inl e
              | Inr (result, result_probs, result_is_confident) \<Rightarrow>
                  if length result \<noteq> num_fake then Inl AssertionError
                  else if length result_probs \<noteq> num_fake then Inl AssertionError
                  else (case np_mean result_probs of
                          None \<Rightarrow> Inl NanValue
                        | Some conf \<Rightarrow> mode_metrics 10 result result_is_confident conf)))"

text \<open>
  \<^verbatim>\<open>np.split(batch_fake, 3, axis)\<close>: three equal sections along the channel axis
  (\<^verbatim>\<open>axis=3\<close>) or the width axis (\<^verbatim>\<open>axis=2\<close>); numpy raises when the axis does not
  divide by 3.
\<close>

definition split_part :: "nat \<Rightarrow> 'a list \<Rightarrow> 'a list" where
  "split_part i xs = (let k = length xs div 3 in take k (drop (i * k) xs))"

definition splittable :: "bool \<Rightarrow> sample \<Rightarrow> bool" where
  "splittable to_channels x =
     (if to_channels then list_all (list_all (\<lambda>px. length px mod 3 = 0)) x
      else list_all (\<lambda>row. length row mod 3 = 0) x)"

definition sub_image :: "bool \<Rightarrow> nat \<Rightarrow> sample \<Rightarrow> sample" where
  "sub_image to_channels i x =
     (if to_channels then map (map (split_part i)) x else map (split_part i) x)"

definition np_split3 :: "bool \<Rightarrow> batch \<Rightarrow> error + (batch \<times> batch \<times> batch)" where
  "np_split3 to_channels batch_fake =
     (if list_all (splittable to_channels) batch_fake
      then Inr (map (sub_image to_channels 0) batch_fake,
                map (sub_image to_channels 1) batch_fake,
                map (sub_image to_channels 2) batch_fake)
      else Inl ValueError)"

text \<open>One pass of the loop of \<^verbatim>\<open>_evaluate_mnist3\<close> (lines 321 to 343).\<close>

definition classify_batch3 ::
  "classifier \<Rightarrow> bool \<Rightarrow> real \<Rightarrow> batch \<Rightarrow> error + (nat list \<times> real list list \<times> bool list)" where
  "classify_batch3 net to_channels thresh batch_fake =
     (case np_split3 to_channels batch_fake of
        Inl e \<Rightarrow> Inl e
      | Inr (input1, input2, input3) \<Rightarrow>
          (let (res1, prob1) = sess_run net input1;
               (res2, prob2) = sess_run net input2;
               (res3, prob3) = sess_run net input3
           in Inr (map (\<lambda>(r1, r2, r3). 100 * r1 + 10 * r2 + r3) (zip res1 (zip res2 res3)),
                   map (\<lambda>(p1, p2, p3). [p1, p2, p3]) (zip prob1 (zip prob2 prob3)),
                   map (\<lambda>(p1, p2, p3). p1 > thresh \<and> p2 > thresh \<and> p3 > thresh)
                     (zip prob1 (zip prob2 prob3)))))"

fun run_batches3 ::
  "classifier \<Rightarrow> bool \<Rightarrow> real \<Rightarrow> batch list
     \<Rightarrow> error + (nat list \<times> real list list \<times> bool list) list" where
  "run_batches3 net to_channels thresh [] = Inr []"
| "run_batches3 net to_channels thresh (batch_fake # rest) =
     (case classify_batch3 net to_channels thresh batch_fake of
        Inl e \<Rightarrow> Inl e
      | Inr r \<Rightarrow>
          (case run_batches3 net to_channels thresh rest of
             Inl e \<Rightarrow> Inl e
           | Inr rs \<Rightarrow> Inr (r # rs)))"

definition classify_mnist3 ::
  "classifier \<Rightarrow> opts \<Rightarrow> batch \<Rightarrow> error + (nat list \<times> real list list \<times> bool list)" where
  "classify_mnist3 net opts fake_points =
     (case batch_slices (tf_run_batch_size opts) fake_points of
        Inl e \<Rightarrow> Inl e
      | Inr batches \<Rightarrow>
     (case run_batches3 net (mnist3_to_channels opts) (digit_classification_threshold opts)
             batches of
        Inl e \<Rightarrow> Inl e
      | Inr runs \<Rightarrow>
     (case np_stack (map fst runs) of
        Inl e \<Rightarrow> Inl e
      | Inr result \<Rightarrow>
     (case np_stack (map (\<lambda>r. fst (snd r)) runs) of
        Inl e \<Rightarrow> Inl e
      | Inr result_probs \<Rightarrow>
     (case np_stack (map (\<lambda>r. snd (snd r)) runs) of
        Inl e \<Rightarrow> Inl e
      | Inr result_is_confident \<Rightarrow> Inr (result, result_probs, result_is_confident))))))"

text \<open>
  \<^verbatim>\<open>_evaluate_mnist3\<close>; \<^verbatim>\<open>np.mean(result_probs)\<close> runs over all entries of the
  \<^verbatim>\<open>num_fake \<times> 3\<close> array.
\<close>

definition evaluate_mnist3 ::
  "classifier option \<Rightarrow> opts \<Rightarrow> batch \<Rightarrow> error + (real \<times> real \<times> real \<times> real)" where
  "evaluate_mnist3 model opts fake_points =
     (if \<not> length fake_points > 0 then Inl AssertionError
      else let num_fake = length fake_points;
               fake = (if input_normalize_sym opts then rescale_unit fake_points
                       else fake_points)
           in case model of
                None \<Rightarrow> Inl AssertionError
              | Some net \<Rightarrow>
             (case classify_mnist3 net opts fake of
                Inl e \<Rightarrow> Inl e
              | Inr (result, result_probs, result_is_confident) \<Rightarrow>
                  if length result \<noteq> num_fake then Inl AssertionError
                  else if length result_probs \<noteq> num_fake then Inl AssertionError
                  else (case np_mean (concat result_probs) of
                          None \<Rightarrow> Inl NanValue
                        | Some conf \<Rightarrow> mode_metrics 1000 result result_is_confident conf)))"

section \<open>Dispatch on the dataset kind\<close>

text \<open>
  \<^verbatim>\<open>evaluate\<close>: the discrete evaluators are called with \<^verbatim>\<open>validation_fake_points=None\<close>;
  an unknown dataset kind logs a message and returns \<^verbatim>\<open>None\<close>.
\<close>

definition lift_vec :: "error + (real \<times> real) \<Rightarrow> error + metric_result option" where
  "lift_vec r = (case r of Inl e \<Rightarrow> Inl e | Inr (log_p, C) \<Rightarrow> Inr (Some (LogpCoverage log_p C)))"

definition lift_modes ::
  "error + (real \<times> real \<times> real \<times> real) \<Rightarrow> error + metric_result option" where
  "lift_modes r =
     (case r of
        Inl e \<Rightarrow> Inl e
      | Inr (JS, C, C_actual, conf) \<Rightarrow> Inr (Some (ModeMetrics JS C C_actual conf)))"

definition evaluate ::
  "backend \<Rightarrow> classifier option \<Rightarrow> opts \<Rightarrow> batch \<Rightarrow> batch \<Rightarrow> batch option
     \<Rightarrow> error + metric_result option" where
  "evaluate kde model opts real_points fake_points validation_fake_points =
     (if dataset opts = ''gmm'' then
        lift_vec (evaluate_vec kde real_points fake_points validation_fake_points)
      else if dataset opts = ''circle_gmm'' then
        lift_vec (evaluate_vec kde real_points fake_points validation_fake_points)
      else if dataset opts = ''mnist'' then
        lift_modes (evaluate_mnist model opts fake_points)
      else if dataset opts = ''mnist3'' then
        lift_modes (evaluate_mnist3 model opts fake_points)
      else Inr None)"

section \<open>The Gaussian kernel density estimator\<close>

text \<open>
  The estimator scikit-learn documents for \<^verbatim>\<open>kernel='gaussian'\<close>: the density at \<open>y\<close> is the
  mean over the fitted rows \<open>x\<close> of \<open>exp (- |y - x|\<^sup>2 / (2 h\<^sup>2)) / (sqrt (2 pi) h) ^ d\<close>, and
  \<^verbatim>\<open>score_samples\<close> returns its logarithm. The constructor rejects a bandwidth that is not
  positive and \<^verbatim>\<open>fit\<close> rejects an empty array, both with \<^verbatim>\<open>ValueError\<close>. It is the backend
  at which the concrete runs below are evaluated.
\<close>

definition sq_dist :: "point \<Rightarrow> point \<Rightarrow> real" where
  "sq_dist y x = sum_list (map (\<lambda>(a, b). (a - b) * (a - b)) (zip y x))"

definition gaussian_log_density :: "real \<Rightarrow> point list \<Rightarrow> point \<Rightarrow> real" where
  "gaussian_log_density h X y =
     ln (sum_list (map (\<lambda>x. exp (- sq_dist y x / (2 * h * h))) X)
         / (real (length X) * (sqrt (2 * pi) * h) ^ length (hd X)))"

definition gaussian_kde :: backend where
  "gaussian_kde h X =
     (if h \<le> 0 then Inl ValueError
      else if X = [] then Inl ValueError
      else Inr (gaussian_log_density h X))"

section \<open>The continuous evaluator on the Python store\<close>

text \<open>
  A call of \<^verbatim>\<open>_evaluate_vec\<close> runs on a store: the arrays that exist, each at its address,
  and the fields of the \<^verbatim>\<open>Metrics\<close> object the method is called on. An argument or a local
  variable that names an array holds its address. \<open>Batch\<close> is an array of shape
  \<^verbatim>\<open>(n, dim1, dim2, dim3)\<close>; \<open>Rows\<close> is an array taken row by row, the entries of one
  sample in each row; \<open>Floats\<close> is a one-dimensional array, \<open>Grid\<close> one that may hold
  \<^verbatim>\<open>nan\<close>, and \<open>Flags\<close> one of booleans.
\<close>

type_synonym addr = nat

datatype pyval =
    Batch batch
  | Rows "point list"
  | Floats "real list"
  | Grid "real option list"
  | Flags "bool list"

record store =
  heap :: "pyval list"
  self_obj :: metrics

text \<open>A computation returns a value or raises, and leaves a store.\<close>

type_synonym 'a run = "store \<Rightarrow> (error + 'a) \<times> store"

definition ret :: "'a \<Rightarrow> 'a run" where
  "ret x s = (Inr x, s)"

definition raise :: "error \<Rightarrow> 'a run" where
  "raise e s = (Inl e, s)"

definition lift_result :: "error + 'a \<Rightarrow> 'a run" where
  "lift_result r s = (r, s)"

definition bind_run :: "'a run \<Rightarrow> ('a \<Rightarrow> 'b run) \<Rightarrow> 'b run" where
  "bind_run m f s = (case m s of (Inl e, s') \<Rightarrow> (Inl e, s') | (Inr x, s') \<Rightarrow> f x s')"

text \<open>A new array is put at the next free address; nothing else changes.\<close>

definition new_array :: "pyval \<Rightarrow> addr run" where
  "new_array v s = (Inr (length (heap s)), s\<lparr>heap := heap s @ [v]\<rparr>)"

definition get :: "addr \<Rightarrow> pyval run" where
  "get a s = (if a < length (heap s) then (Inr (heap s ! a), s) else (Inl TypeError, s))"

definition get_batch :: "addr \<Rightarrow> batch run" where
  "get_batch a = bind_run (get a) (\<lambda>v. case v of Batch b \<Rightarrow> ret b | _ \<Rightarrow> raise TypeError)"









definition reshape_rows :: "addr \<Rightarrow> addr run" where
  "reshape_rows a =
     bind_run (get_batch a) (\<lambda>b.
     bind_run (lift_result (np_reshape b)) (\<lambda>X. new_array (Rows X)))"















text \<open>
  What a call may rely on and must keep: an address holds a value; a store goes on from
  another when the fields of the object are the same and every array of the earlier store
  is still there, at its address and with its contents.
\<close>

definition holds :: "store \<Rightarrow> addr \<Rightarrow> pyval \<Rightarrow> bool" where
  "holds s a v \<longleftrightarrow> a < length (heap s) \<and> heap s ! a = v"


definition extends :: "store \<Rightarrow> store \<Rightarrow> bool" where
  "extends s s' \<longleftrightarrow>
     self_obj s' = self_obj s \<and> length (heap s) \<le> length (heap s') \<and>
     take (length (heap s)) (heap s') = heap s"

section \<open>Concrete inputs\<close>

text \<open>
  The options the driver script \<^verbatim>\<open>adagan_gmm.py\<close> sets, for a given dataset kind.
\<close>

definition driver_opts :: "string \<Rightarrow> opts" where
  "driver_opts kind =
     \<lparr>dataset = kind, input_normalize_sym = False, tf_run_batch_size = 100,
      digit_classification_threshold = 999 / 1000, mnist3_to_channels = False\<rparr>"

text \<open>A batch of one-dimensional points, each of shape \<^verbatim>\<open>(1, 1, 1)\<close>.\<close>

definition points_1d :: "real list \<Rightarrow> batch" where
  "points_1d vs = map (\<lambda>v. [[[v]]]) vs"


text \<open>
  A stand-in for the pre-trained classifier: it reads the digit and the confidence off the
  first pixel of the image, whose two channels hold them.
\<close>

definition pixel_net :: classifier where
  "pixel_net x = (case x of ((d # c # _) # _) # _ \<Rightarrow> (nat \<lfloor>d\<rfloor>, c) | _ \<Rightarrow> (0, 0))"

definition digit_image :: "nat \<Rightarrow> real \<Rightarrow> sample" where
  "digit_image d c = [[[real d, c]]]"

text \<open>Three digit images side by side along the width axis.\<close>

definition triple_image :: "nat \<Rightarrow> nat \<Rightarrow> nat \<Rightarrow> real \<Rightarrow> sample" where
  "triple_image d1 d2 d3 c = [[[real d1, c], [real d2, c], [real d3, c]]]"

text \<open>
  One image of each digit from 0 to 9; only the image of 0 is classified with a confidence
  above the threshold.
\<close>

definition ten_digits :: batch where
  "ten_digits = map (\<lambda>d. digit_image d (if d = 0 then 1 else 1 / 2)) [0..<10]"



section \<open>Properties of the numpy functions\<close>

lemma sum_list_indicator:
  "sum_list (map (\<lambda>x. if P x then 1 else 0) xs) = real (length (filter P xs))"
  by (induction xs) auto

lemma mean_le_map:
  "xs \<noteq> [] \<Longrightarrow>
     mean_le (map g xs) t = Some (real (length (filter (\<lambda>x. g x \<le> t) xs)) / real (length xs))"
  by (simp add: mean_le_def np_mean_def comp_def sum_list_indicator)

lemma np_percentile_Some: "xs \<noteq> [] \<Longrightarrow> \<exists>t. np_percentile xs q = Some t"
  by (simp add: np_percentile_def Let_def)


lemma consecutive_dist_Nil: "consecutive_dist [] = []"
  by (simp add: consecutive_dist_def)

lemma fit_kde_Nil: "fit_kde kde bw [] = Inl ValueError"
  by (simp add: fit_kde_def np_reshape_def)

lemma points_1d_two:
  "consecutive_dist (points_1d [a, b]) = [\<bar>a - b\<bar>]"
  by (simp add: consecutive_dist_def points_1d_def sq_diff_sum_def flatten_def)

section \<open>The continuous evaluator\<close>

lemma evaluate_vec_empty: "evaluate_vec kde real_points [] val = Inl ValueError"
proof (cases val)
  case None
  then show ?thesis
    by (simp add: evaluate_vec_def select_bandwidth_def np_median_def consecutive_dist_Nil
          fit_kde_Nil)
next
  case (Some v)
  have "grid_search kde [] v (b_grid None) (None, - 1000000) = Inl ValueError"
    by (simp add: b_grid_def upt_rec validation_score_def fit_kde_Nil)
  with Some show ?thesis
    by (simp add: evaluate_vec_def select_bandwidth_def np_median_def consecutive_dist_Nil)
qed




text \<open>
  C7, as stated, fails: for a dataset kind that \<^verbatim>\<open>evaluate\<close> does not dispatch on, a call with
  an empty fake batch raises nothing and returns \<^verbatim>\<open>None\<close>.
\<close>

theorem evaluate_empty_other_kind_counterexample:
  "evaluate gaussian_kde None (driver_opts ''cifar10'') (points_1d [0, 1]) [] None = Inr None"
  by (simp add: evaluate_def driver_opts_def)

text \<open>
  C7, amended: with an empty fake batch each of the three evaluators fails and returns no
  metric, whatever its other arguments are: the continuous one with the \<^verbatim>\<open>ValueError\<close> of
  the first reshape of the fake batch, before any estimator is fitted, the discrete ones
  with the \<^verbatim>\<open>AssertionError\<close> of their first line; and so does \<^verbatim>\<open>evaluate\<close> for each of the
  four dataset kinds it dispatches on, while for every other kind it returns \<^verbatim>\<open>None\<close>.
\<close>

theorem evaluate_empty_fake_batch:
  "evaluate_vec kde real_points [] val = Inl ValueError \<and>
   evaluate_mnist model opts [] = Inl AssertionError \<and>
   evaluate_mnist3 model opts [] = Inl AssertionError \<and>
   (dataset opts \<in> {''gmm'', ''circle_gmm''} \<longrightarrow>
      evaluate kde model opts real_points [] val = Inl ValueError) \<and>
   (dataset opts \<in> {''mnist'', ''mnist3''} \<longrightarrow>
      evaluate kde model opts real_points [] val = Inl AssertionError) \<and>
   (dataset opts \<notin> {''gmm'', ''circle_gmm'', ''mnist'', ''mnist3''} \<longrightarrow>
      evaluate kde model opts real_points [] val = Inr None)"
  by (auto simp: evaluate_def evaluate_vec_empty lift_vec_def lift_modes_def
        evaluate_mnist_def evaluate_mnist3_def)

theorem evaluate_empty_fake_batch_witness:
  "evaluate gaussian_kde None (driver_opts ''gmm'') (points_1d [0, 1]) [] (Some (points_1d [2]))
     = Inl ValueError \<and>
   evaluate gaussian_kde None (driver_opts ''mnist3'') (points_1d [0, 1]) [] None
     = Inl AssertionError \<and>
   evaluate gaussian_kde None (driver_opts ''guitars'') (points_1d [0, 1]) [] None = Inr None"
  using evaluate_empty_fake_batch
          [of gaussian_kde "points_1d [0, 1]" "Some (points_1d [2])" None "driver_opts ''gmm''"]
        evaluate_empty_fake_batch
          [of gaussian_kde "points_1d [0, 1]" None None "driver_opts ''mnist3''"]
        evaluate_empty_fake_batch
          [of gaussian_kde "points_1d [0, 1]" None None "driver_opts ''guitars''"]
  by (simp add: driver_opts_def)

text \<open>
  C8: for a dataset kind other than \<^verbatim>\<open>gmm\<close>, \<^verbatim>\<open>circle_gmm\<close>, \<^verbatim>\<open>mnist\<close> and \<^verbatim>\<open>mnist3\<close>,
  \<^verbatim>\<open>evaluate\<close> returns \<^verbatim>\<open>None\<close>: no error, and no metric, whatever the batches, the backend
  and the classifier are.
\<close>

theorem evaluate_unsupported_kind:
  "dataset opts \<notin> {''gmm'', ''circle_gmm'', ''mnist'', ''mnist3''} \<Longrightarrow>
     evaluate kde model opts real_points fake_points validation_fake_points = Inr None"
  by (simp add: evaluate_def)

theorem evaluate_unsupported_kind_witness:
  "dataset (driver_opts ''cifar'') \<notin> {''gmm'', ''circle_gmm'', ''mnist'', ''mnist3''} \<and>
   evaluate gaussian_kde None (driver_opts ''cifar'') [] [] None = Inr None"
  using evaluate_unsupported_kind [of "driver_opts ''cifar''" gaussian_kde None "[]" "[]" None]
  by (simp add: driver_opts_def)

section \<open>Bandwidth selection\<close>

lemma grid_search_inv:
  "grid_search kde F V bs (b0, m0) = Inr (b, m) \<Longrightarrow>
     (\<forall>c\<in>set bs. \<exists>s. validation_score kde F V c = Inr s \<and> s \<le> m) \<and> m0 \<le> m \<and>
     ((b = b0 \<and> m = m0) \<or>
      (\<exists>i<length bs. b = bs ! i \<and> validation_score kde F V (bs ! i) = Inr m \<and> m0 < m \<and>
         (\<forall>j<i. \<forall>s. validation_score kde F V (bs ! j) = Inr s \<longrightarrow> s < m)))"
proof (induction bs arbitrary: b0 m0)
  case Nil
  then show ?case by simp
next
  case (Cons c cs)
  from Cons.prems obtain s where s: "validation_score kde F V c = Inr s"
    by (cases "validation_score kde F V c") auto
  show ?case
  proof (cases "s > m0")
    case True
    with Cons.prems s have run: "grid_search kde F V cs (c, s) = Inr (b, m)" by simp
    note ih = Cons.IH [OF run]
    from ih have all: "\<forall>c\<in>set cs. \<exists>s. validation_score kde F V c = Inr s \<and> s \<le> m"
      and le: "s \<le> m" by auto
    from ih consider (keep) "b = c" "m = s"
      | (later) i where "i < length cs" "b = cs ! i" "validation_score kde F V (cs ! i) = Inr m"
          "s < m" "\<forall>j<i. \<forall>t. validation_score kde F V (cs ! j) = Inr t \<longrightarrow> t < m"
      by blast
    then have "\<exists>i<length (c # cs). b = (c # cs) ! i \<and>
        validation_score kde F V ((c # cs) ! i) = Inr m \<and> m0 < m \<and>
        (\<forall>j<i. \<forall>t. validation_score kde F V ((c # cs) ! j) = Inr t \<longrightarrow> t < m)"
    proof cases
      case keep
      with s True show ?thesis by (intro exI [of _ 0]) simp
    next
      case later
      have "\<forall>j<Suc i. \<forall>t. validation_score kde F V ((c # cs) ! j) = Inr t \<longrightarrow> t < m"
        using later(4,5) s by (auto simp: nth_Cons split: nat.splits)
      with later True show ?thesis by (intro exI [of _ "Suc i"]) auto
    qed
    with all le s True show ?thesis by auto
  next
    case False
    with Cons.prems s have run: "grid_search kde F V cs (b0, m0) = Inr (b, m)" by simp
    note ih = Cons.IH [OF run]
    from ih have all: "\<forall>c\<in>set cs. \<exists>s. validation_score kde F V c = Inr s \<and> s \<le> m"
      and le: "m0 \<le> m" by auto
    from ih consider (keep) "b = b0" "m = m0"
      | (later) i where "i < length cs" "b = cs ! i" "validation_score kde F V (cs ! i) = Inr m"
          "m0 < m" "\<forall>j<i. \<forall>t. validation_score kde F V (cs ! j) = Inr t \<longrightarrow> t < m"
      by blast
    then have "(b = b0 \<and> m = m0) \<or> (\<exists>i<length (c # cs). b = (c # cs) ! i \<and>
        validation_score kde F V ((c # cs) ! i) = Inr m \<and> m0 < m \<and>
        (\<forall>j<i. \<forall>t. validation_score kde F V ((c # cs) ! j) = Inr t \<longrightarrow> t < m))"
    proof cases
      case keep
      then show ?thesis by simp
    next
      case later
      have "\<forall>j<Suc i. \<forall>t. validation_score kde F V ((c # cs) ! j) = Inr t \<longrightarrow> t < m"
        using later(4,5) s False by (auto simp: nth_Cons split: nat.splits)
      with later show ?thesis by (intro disjI2 exI [of _ "Suc i"]) auto
    qed
    with all le s False show ?thesis by auto
  qed
qed

lemma length_b_grid: "length (b_grid bw) = 14"
  by (simp add: b_grid_def)

lemma b_grid_nth: "i < 14 \<Longrightarrow> b_grid (Some b0) ! i = Some (b0 * 2 powr (real i - 7))"
  by (simp add: b_grid_def)

lemma length_consecutive_dist: "length (consecutive_dist fake) = length fake - 1"
  by (simp add: consecutive_dist_def)

lemma sq_diff_sum_nonneg: "0 \<le> sq_diff_sum x y"
  unfolding sq_diff_sum_def by (rule sum_list_nonneg) auto

lemma consecutive_dist_nonneg: "d \<in> set (consecutive_dist fake) \<Longrightarrow> 0 \<le> d"
  by (auto simp: consecutive_dist_def sq_diff_sum_nonneg)

lemma np_median_nonneg:
  assumes "\<forall>x\<in>set xs. 0 \<le> x" and "np_median xs = Some m"
  shows "0 \<le> m"
proof -
  from assms(2) have ne: "xs \<noteq> []" by (auto simp: np_median_def split: if_splits)
  have nn: "0 \<le> sort xs ! i" if "i < length xs" for i
  proof -
    from that have "sort xs ! i \<in> set (sort xs)" by (intro nth_mem) simp
    with assms(1) show ?thesis by simp
  qed
  from ne have pos: "0 < length xs" by simp
  then have "length xs div 2 < length xs" "length xs div 2 - 1 < length xs"
    by (simp_all add: less_imp_diff_less)
  then have "0 \<le> sort xs ! (length xs div 2)" "0 \<le> sort xs ! (length xs div 2 - 1)"
    using nn by blast+
  with assms(2) ne show ?thesis
    by (auto simp: np_median_def Let_def split: if_splits)
qed

lemma initial_bandwidth:
  assumes "2 \<le> length fake"
  shows "\<exists>b0. np_median (consecutive_dist fake) = Some b0 \<and> 0 \<le> b0"
proof -
  from assms have "consecutive_dist fake \<noteq> []"
    using length_consecutive_dist [of fake] by (cases "consecutive_dist fake") auto
  then obtain b0 where b0: "np_median (consecutive_dist fake) = Some b0"
    by (auto simp: np_median_def Let_def)
  with np_median_nonneg [of "consecutive_dist fake" b0] consecutive_dist_nonneg
  show ?thesis by blast
qed

lemma select_bandwidth_candidates:
  assumes med: "np_median (consecutive_dist fake) = Some b0"
    and sel: "select_bandwidth kde fake val = Inr bw"
  shows "\<exists>i<14. bw = Some (b0 * 2 powr (real i - 7)) \<and> (val = None \<longrightarrow> i = 7)"
proof (cases val)
  case None
  with med sel have "bw = Some b0" by (simp add: select_bandwidth_def)
  then show ?thesis using None by (intro exI [of _ 7]) simp
next
  case (Some v)
  with med sel obtain m where
    run: "grid_search kde fake v (b_grid (Some b0)) (Some b0, - 1000000) = Inr (bw, m)"
    by (auto simp: select_bandwidth_def Let_def split: sum.splits prod.splits)
  from grid_search_inv [OF run] consider "bw = Some b0"
    | i where "i < 14" "bw = b_grid (Some b0) ! i"
    by (auto simp: length_b_grid)
  then show ?thesis
  proof cases
    case 1
    then show ?thesis using Some by (intro exI [of _ 7]) simp
  next
    case 2
    then show ?thesis using Some by (intro exI [of _ i]) (simp add: b_grid_nth)
  qed
qed

lemma grid_search_all_low:
  "(\<forall>c\<in>set bs. \<exists>s. validation_score kde F V c = Inr s \<and> s \<le> m0) \<Longrightarrow>
     grid_search kde F V bs (b0, m0) = Inr (b0, m0)"
  by (induction bs) auto

lemma gaussian_two_points:
  "gaussian_log_density h [[0], [1]] [v] =
     ln ((exp (- (v * v) / (2 * h * h)) + exp (- ((v - 1) * (v - 1)) / (2 * h * h)))
         / (2 * (sqrt (2 * pi) * h)))"
  by (simp add: gaussian_log_density_def sq_dist_def)

lemma validation_score_two_points:
  "0 < h \<Longrightarrow>
     validation_score gaussian_kde (points_1d [0, 1]) (points_1d [v]) (Some h) =
       Inr (gaussian_log_density h [[0], [1]] [v])"
  by (simp add: validation_score_def fit_kde_def np_reshape_def points_1d_def flatten_def
        gaussian_kde_def np_mean_def)

lemma sqrt_two_pi_bounds: "1 \<le> sqrt (2 * pi)" "sqrt (2 * pi) \<le> 3"
proof -
  have "1 \<le> 2 * pi" using pi_ge_two by simp
  then show "1 \<le> sqrt (2 * pi)" by simp
  have "2 * pi \<le> 9" using pi_less_4 by simp
  then have "sqrt (2 * pi) \<le> sqrt 9" by (simp only: real_sqrt_le_iff)
  also have "sqrt 9 = (3::real)" by (rule real_sqrt_unique) simp_all
  finally show "sqrt (2 * pi) \<le> 3" .
qed

lemma gaussian_two_points_upper:
  assumes h: "1 / 128 \<le> h" and v: "1 \<le> v"
  shows "gaussian_log_density h [[0], [1]] [v] \<le> 127 - (v - 1) * (v - 1) / (2 * h * h)"
proof -
  let ?A = "(v - 1) * (v - 1) / (2 * h * h)"
  let ?N = "exp (- (v * v) / (2 * h * h)) + exp (- ((v - 1) * (v - 1)) / (2 * h * h))"
  let ?D = "2 * (sqrt (2 * pi) * h)"
  from h have hpos: "0 < h" by simp
  have sq: "(v - 1) * (v - 1) \<le> v * v"
    using v by (simp add: algebra_simps)
  have "- (v * v) / (2 * h * h) \<le> - ((v - 1) * (v - 1)) / (2 * h * h)"
    using sq hpos by (simp add: divide_le_cancel)
  then have N: "?N \<le> 2 * exp (- ?A)" by simp
  have Npos: "0 < ?N" by (simp add: add_pos_pos)
  have "2 * (1 * (1 / 128)) \<le> ?D"
    using sqrt_two_pi_bounds(1) h by (intro mult_left_mono mult_mono) simp_all
  then have D: "1 / 64 \<le> ?D" by simp
  then have Dpos: "0 < ?D" by linarith
  have "?N / ?D \<le> (2 * exp (- ?A)) / (1 / 64)"
    using N D Dpos by (intro frac_le) simp_all
  then have le: "?N / ?D \<le> 128 * exp (- ?A)" by simp
  have pos: "0 < ?N / ?D" using Npos Dpos by (rule divide_pos_pos)
  have "ln (?N / ?D) \<le> ln (128 * exp (- ?A))"
    using pos le by (simp only: ln_le_cancel_iff [OF pos]) 
  also have "\<dots> = ln 128 + - ?A" by (simp add: ln_mult)
  also have "\<dots> \<le> 127 - ?A"
    using ln_le_minus_one [of "128::real"] by simp
  finally show ?thesis by (simp only: gaussian_two_points)
qed

lemma gaussian_two_points_lower:
  assumes h: "0 < h" "h \<le> 64"
  shows "- (v * v) / (2 * h * h) - 383 \<le> gaussian_log_density h [[0], [1]] [v]"
proof -
  let ?B = "(v * v) / (2 * h * h)"
  let ?N = "exp (- (v * v) / (2 * h * h)) + exp (- ((v - 1) * (v - 1)) / (2 * h * h))"
  let ?D = "2 * (sqrt (2 * pi) * h)"
  have "?D \<le> 2 * (3 * 64)"
    using sqrt_two_pi_bounds h by (intro mult_left_mono mult_mono) simp_all
  then have D: "?D \<le> 384" by simp
  have Dpos: "0 < ?D" using h sqrt_two_pi_bounds(1) by simp
  have N: "exp (- ?B) \<le> ?N" by simp
  have "exp (- ?B) / 384 \<le> ?N / ?D"
    using N D Dpos by (intro frac_le) simp_all
  moreover have pos: "0 < exp (- ?B) / 384" by simp
  ultimately have "ln (exp (- ?B) / 384) \<le> ln (?N / ?D)"
    by (simp only: ln_le_cancel_iff)
  moreover have "ln (exp (- ?B) / 384) = - ?B - ln 384"
    by (simp add: ln_div)
  moreover have "ln (384::real) \<le> 383"
    using ln_le_minus_one [of "384::real"] by simp
  ultimately show ?thesis by (simp only: gaussian_two_points)
qed

lemma grid_factor_bounds:
  assumes "i < 14"
  shows "1 / 128 \<le> 2 powr (real i - 7)" "2 powr (real i - 7) \<le> 64"
proof -
  have "(2::real) powr (- 7) \<le> 2 powr (real i - 7)"
    by (intro powr_mono) simp_all
  moreover have "(2::real) powr (- 7) = 1 / 128"
    by (simp add: powr_minus_divide)
  ultimately show "1 / 128 \<le> 2 powr (real i - 7)" by simp
  have "(2::real) powr (real i - 7) \<le> 2 powr 6"
    using assms by (intro powr_mono) simp_all
  moreover have "(2::real) powr 6 = 64" by simp
  ultimately show "2 powr (real i - 7) \<le> 64" by simp
qed

lemma far_validation_low:
  assumes h: "1 / 128 \<le> h" "h \<le> 64"
  shows "gaussian_log_density h [[0], [1]] [1000000] \<le> - 1000000"
proof -
  from h have hpos: "0 < h" by simp
  have "h * h \<le> 64 * 64" using h hpos by (intro mult_mono) simp_all
  then have "2 * h * h \<le> 8192" by simp
  moreover have "0 < 2 * h * h" using hpos by simp
  ultimately have "(999999 * 999999) / 8192 \<le> (999999 * 999999) / (2 * h * h)"
    by (intro divide_left_mono) simp_all
  moreover have "gaussian_log_density h [[0], [1]] [1000000]
      \<le> 127 - (1000000 - 1) * (1000000 - 1) / (2 * h * h)"
    using h(1) by (intro gaussian_two_points_upper) simp_all
  ultimately show ?thesis by simp
qed

lemma far_validation_keeps_initial:
  "select_bandwidth gaussian_kde (points_1d [0, 1]) (Some (points_1d [1000000])) = Inr (Some 1)"
proof -
  have med: "np_median (consecutive_dist (points_1d [0, 1])) = Some 1"
    by (simp add: points_1d_two np_median_def)
  have "\<forall>c\<in>set (b_grid (Some 1)). \<exists>s.
      validation_score gaussian_kde (points_1d [0, 1]) (points_1d [1000000]) c = Inr s \<and>
      s \<le> - 1000000"
  proof
    fix c assume "c \<in> set (b_grid (Some 1))"
    then obtain i where i: "i < 14" "c = Some (2 powr (real i - 7))"
      by (auto simp: b_grid_def)
    note b = grid_factor_bounds [OF i(1)]
    from b(1) have "0 < (2::real) powr (real i - 7)" by simp
    from validation_score_two_points [OF this] far_validation_low [OF b] i(2)
    show "\<exists>s. validation_score gaussian_kde (points_1d [0, 1]) (points_1d [1000000]) c = Inr s \<and>
      s \<le> - 1000000" by simp
  qed
  from grid_search_all_low [OF this]
  show ?thesis by (simp add: select_bandwidth_def med)
qed

lemma median_two_points: "np_median (consecutive_dist (points_1d [0, 1])) = Some 1"
  by (simp add: points_1d_two np_median_def)

text \<open>
  C3, as stated, fails: two equal fake points are at distance 0, so the median, and with it
  the bandwidth handed to the estimator, is 0.
\<close>

theorem bandwidth_zero_counterexample:
  "2 \<le> length (points_1d [0, 0]) \<and>
   select_bandwidth gaussian_kde (points_1d [0, 0]) None = Inr (Some 0) \<and>
   evaluate_vec gaussian_kde (points_1d [0, 0]) (points_1d [0, 0]) None = Inl ValueError"
  by (simp add: select_bandwidth_def points_1d_two np_median_def evaluate_vec_def fit_kde_def
        np_reshape_def gaussian_kde_def) (simp add: points_1d_def)

text \<open>
  C3, amended: for a fake batch of at least two points the initial bandwidth is the median
  of the distances between consecutive fake points, which is never negative; the bandwidth
  selected is that median times \<open>2 ^ k\<close> for an integer \<open>k\<close> from -7 to 6 (the median itself
  without a validation batch), and it is strictly positive exactly when the median is.
\<close>

theorem bandwidth_positive_iff:
  assumes "2 \<le> length fake_points"
    and "select_bandwidth kde fake_points val = Inr bw"
  shows "\<exists>b0 b. np_median (consecutive_dist fake_points) = Some b0 \<and> bw = Some b \<and>
     0 \<le> b0 \<and> (\<exists>k\<in>{-7..6::int}. b = b0 * 2 powr real_of_int k) \<and>
     (val = None \<longrightarrow> b = b0) \<and> (0 < b \<longleftrightarrow> 0 < b0)"
proof -
  from initial_bandwidth [OF assms(1)] obtain b0
    where med: "np_median (consecutive_dist fake_points) = Some b0" and nn: "0 \<le> b0" by blast
  from select_bandwidth_candidates [OF med assms(2)] obtain i
    where i: "i < 14" "bw = Some (b0 * 2 powr (real i - 7))" "val = None \<longrightarrow> i = 7" by blast
  have k: "int i - 7 \<in> {-7..6::int}" using i(1) by auto
  have eq: "b0 * 2 powr (real i - 7) = b0 * 2 powr real_of_int (int i - 7)" by simp
  have pos: "0 < b0 * 2 powr (real i - 7) \<longleftrightarrow> 0 < b0"
    by (simp add: zero_less_mult_iff)
  have grid: "\<exists>k\<in>{-7..6::int}. b0 * 2 powr (real i - 7) = b0 * 2 powr real_of_int k"
    using k eq by blast
  have none: "val = None \<longrightarrow> b0 * 2 powr (real i - 7) = b0"
    using i(3) by simp
  show ?thesis
    using med i(2) nn grid none pos by blast
qed

theorem bandwidth_positive_iff_witness:
  "\<exists>b0 b. np_median (consecutive_dist (points_1d [0, 1])) = Some b0 \<and> Some 1 = Some b \<and>
     0 \<le> b0 \<and> (\<exists>k\<in>{-7..6::int}. b = b0 * 2 powr real_of_int k) \<and>
     (Some (points_1d [1000000]) = None \<longrightarrow> b = b0) \<and> (0 < b \<longleftrightarrow> 0 < b0)"
proof -
  have "2 \<le> length (points_1d [0, 1])" by (simp add: points_1d_def)
  from bandwidth_positive_iff [OF this far_validation_keeps_initial] show ?thesis .
qed

text \<open>
  C5, at fake points 0 and 1 and a validation point at 1000000: the claim has the final
  bandwidth be the candidate with the largest validation score. The loop keeps a running
  maximum, but starts it at \<^verbatim>\<open>max_score = -1000000.\<close> in place of minus infinity; here every
  candidate scores below that start value, so the bandwidth is never replaced and stays at
  the initial estimate 1, while the candidate \<open>1 * 2 ^ 6\<close> of the same grid has a strictly
  larger validation score.
\<close>

theorem grid_search_misses_maximum:
  "select_bandwidth gaussian_kde (points_1d [0, 1]) (Some (points_1d [1000000])) = Inr (Some 1) \<and>
   validation_score gaussian_kde (points_1d [0, 1]) (points_1d [1000000]) (Some 1)
     = Inr (gaussian_log_density 1 [[0], [1]] [1000000]) \<and>
   validation_score gaussian_kde (points_1d [0, 1]) (points_1d [1000000]) (Some (1 * 2 powr 6))
     = Inr (gaussian_log_density 64 [[0], [1]] [1000000]) \<and>
   gaussian_log_density 1 [[0], [1]] [1000000] < gaussian_log_density 64 [[0], [1]] [1000000]"
proof -
  have lo: "gaussian_log_density 1 [[0], [1]] [1000000]
      \<le> 127 - (1000000 - 1) * (1000000 - 1) / (2 * 1 * 1)"
    by (intro gaussian_two_points_upper) simp_all
  have hi: "- (1000000 * 1000000) / (2 * 64 * 64) - 383
      \<le> gaussian_log_density 64 [[0], [1]] [1000000]"
    by (intro gaussian_two_points_lower) simp_all
  have less: "gaussian_log_density 1 [[0], [1]] [1000000]
      < gaussian_log_density 64 [[0], [1]] [1000000]"
    using lo hi by simp
  have v1: "validation_score gaussian_kde (points_1d [0, 1]) (points_1d [1000000]) (Some 1)
     = Inr (gaussian_log_density 1 [[0], [1]] [1000000])"
    by (intro validation_score_two_points) simp
  have "validation_score gaussian_kde (points_1d [0, 1]) (points_1d [1000000]) (Some 64)
     = Inr (gaussian_log_density 64 [[0], [1]] [1000000])"
    by (intro validation_score_two_points) simp
  then have v64: "validation_score gaussian_kde (points_1d [0, 1]) (points_1d [1000000]) (Some (1 * 2 powr 6))
     = Inr (gaussian_log_density 64 [[0], [1]] [1000000])"
    by simp
  show ?thesis using far_validation_keeps_initial v1 v64 less by blast
qed

section \<open>The continuous evaluator on the Python store\<close>

lemma extends_refl: "extends s s"
  by (simp add: extends_def)


lemma extends_new: "extends s (s\<lparr>heap := heap s @ [v]\<rparr>)"
  by (simp add: extends_def)



lemma holds_new: "holds (s\<lparr>heap := heap s @ [v]\<rparr>) (length (heap s)) v"
  by (simp add: holds_def)

lemma bind_run_Inr: "m s = (Inr x, s1) \<Longrightarrow> bind_run m f s = f x s1"
  by (simp add: bind_run_def)

lemma bind_run_Inl: "m s = (Inl e, s1) \<Longrightarrow> bind_run m f s = (Inl e, s1)"
  by (simp add: bind_run_def)

lemma get_holds: "holds s a v \<Longrightarrow> get a s = (Inr v, s)"
  by (simp add: get_def holds_def)

lemma get_batch_holds: "holds s a (Batch b) \<Longrightarrow> get_batch a s = (Inr b, s)"
  by (simp add: get_batch_def bind_run_def get_holds ret_def)














lemma reshape_rows_run:
  assumes "holds s a (Batch b)"
  shows "reshape_rows a s =
     (case np_reshape b of
        Inl e \<Rightarrow> (Inl e, s)
      | Inr X \<Rightarrow> (Inr (length (heap s)), s\<lparr>heap := heap s @ [Rows X]\<rparr>))"
  by (simp add: reshape_rows_def bind_run_def get_batch_holds [OF assms]
        lift_result_def new_array_def split: sum.splits)



lemma reshape_rows_holds:
  assumes "holds s a (Batch b)"
  shows "\<exists>s'. extends s s' \<and>
     (case np_reshape b of
        Inl e \<Rightarrow> reshape_rows a s = (Inl e, s')
      | Inr X \<Rightarrow> \<exists>r. reshape_rows a s = (Inr r, s') \<and> holds s' r (Rows X))"
proof (cases "np_reshape b")
  case (Inl e)
  then show ?thesis
    using reshape_rows_run [OF assms] extends_refl by auto
next
  case (Inr X)
  then have "reshape_rows a s = (Inr (length (heap s)), s\<lparr>heap := heap s @ [Rows X]\<rparr>)"
    using reshape_rows_run [OF assms] by simp
  with Inr show ?thesis
    using extends_new holds_new by fastforce
qed












section \<open>The discrete evaluators\<close>

subsection \<open>Classification in chunks\<close>

lemma concat_slices:
  "concat (map (\<lambda>idx. let end_idx = min (length xs) ((idx + 1) * b)
                        in take (end_idx - idx * b) (drop (idx * b) xs)) [0..<k])
     = take (k * b) xs"
proof (induction k)
  case 0
  then show ?case by simp
next
  case (Suc k)
  have "take (min (length xs) ((k + 1) * b) - k * b) (drop (k * b) xs) = take b (drop (k * b) xs)"
    by (cases "length xs \<le> (k + 1) * b") (simp_all add: min_def)
  moreover have "take (Suc k * b) xs = take (k * b) xs @ take b (drop (k * b) xs)"
  proof -
    have "Suc k * b = k * b + b" by simp
    then show ?thesis by (simp only: take_add)
  qed
  ultimately show ?case using Suc by (simp add: Let_def)
qed

lemma batches_cover:
  assumes "0 < batch_size"
  shows "length xs \<le> nat \<lceil>real (length xs) / real_of_int batch_size\<rceil> * nat batch_size"
proof -
  let ?k = "nat \<lceil>real (length xs) / real_of_int batch_size\<rceil>"
  let ?c = "\<lceil>real (length xs) / real_of_int batch_size\<rceil>"
  have "0 \<le> real (length xs) / real_of_int batch_size"
    using assms by (simp add: divide_nonneg_pos)
  then have nonneg: "0 \<le> ?c" by (simp only: zero_le_ceiling)
  have bpos: "0 < real_of_int batch_size" using assms by simp
  have "real (length xs) / real_of_int batch_size \<le> real_of_int ?c"
    by (rule le_of_int_ceiling)
  then have "real (length xs) \<le> real_of_int ?c * real_of_int batch_size"
    by (simp only: pos_divide_le_eq [OF bpos])
  also have "\<dots> = real (?k * nat batch_size)"
    using assms nonneg by simp
  finally show ?thesis by (simp only: of_nat_le_iff)
qed

lemma batch_slices_concat:
  assumes "0 < batch_size"
  shows "\<exists>batches. batch_slices batch_size xs = Inr batches \<and> concat batches = xs \<and>
           (xs \<noteq> [] \<longrightarrow> batches \<noteq> [])"
proof -
  let ?k = "nat \<lceil>real (length xs) / real_of_int batch_size\<rceil>"
  let ?bs = "map (\<lambda>idx. let end_idx = min (length xs) ((idx + 1) * nat batch_size)
                        in take (end_idx - idx * nat batch_size) (drop (idx * nat batch_size) xs))
               [0..<?k]"
  have eq: "batch_slices batch_size xs = Inr ?bs"
    using assms by (simp add: batch_slices_def Let_def)
  have "concat ?bs = take (?k * nat batch_size) xs" by (rule concat_slices)
  with batches_cover [OF assms, of xs] have cc: "concat ?bs = xs" by simp
  then have "xs \<noteq> [] \<longrightarrow> ?bs \<noteq> []" by (metis concat.simps(1))
  with eq cc show ?thesis by blast
qed

lemma classify_mnist_result:
  assumes "0 < tf_run_batch_size opts" and "fake \<noteq> []"
  shows "classify_mnist net opts fake =
     Inr (map (\<lambda>x. fst (net x)) fake, map (\<lambda>x. snd (net x)) fake,
          map (\<lambda>x. snd (net x) > digit_classification_threshold opts) fake)"
proof -
  from batch_slices_concat [OF assms(1), of fake] assms(2) obtain batches
    where b: "batch_slices (tf_run_batch_size opts) fake = Inr batches"
      "concat batches = fake" "batches \<noteq> []" by blast
  have "concat (map (\<lambda>x. fst (sess_run net x)) batches) = map (\<lambda>x. fst (net x)) (concat batches)"
    by (simp add: sess_run_def map_concat comp_def)
  moreover have "concat (map (\<lambda>x. snd (sess_run net x)) batches)
      = map (\<lambda>x. snd (net x)) (concat batches)"
    by (simp add: sess_run_def map_concat comp_def)
  moreover have "concat (map (\<lambda>x. case sess_run net x of
        (res, prob) \<Rightarrow> map (\<lambda>p. p > digit_classification_threshold opts) prob) batches)
      = map (\<lambda>x. snd (net x) > digit_classification_threshold opts) (concat batches)"
    by (simp add: sess_run_def map_concat comp_def)
  ultimately show ?thesis
    using b by (simp add: classify_mnist_def np_stack_def comp_def)
qed

lemma classify_batch3_result:
  assumes "list_all (splittable tc) batch_fake"
  shows "classify_batch3 net tc thresh batch_fake =
     Inr (map (\<lambda>x. 100 * fst (net (sub_image tc 0 x)) + 10 * fst (net (sub_image tc 1 x))
                      + fst (net (sub_image tc 2 x))) batch_fake,
          map (\<lambda>x. [snd (net (sub_image tc 0 x)), snd (net (sub_image tc 1 x)),
                     snd (net (sub_image tc 2 x))]) batch_fake,
          map (\<lambda>x. snd (net (sub_image tc 0 x)) > thresh \<and> snd (net (sub_image tc 1 x)) > thresh
                     \<and> snd (net (sub_image tc 2 x)) > thresh) batch_fake)"
  using assms
  by (simp add: classify_batch3_def np_split3_def sess_run_def zip_map_map zip_same_conv_map
        comp_def)

lemma run_batches3_result:
  assumes "list_all (list_all (splittable tc)) batches"
  shows "run_batches3 net tc thresh batches =
     Inr (map (\<lambda>batch_fake.
        (map (\<lambda>x. 100 * fst (net (sub_image tc 0 x)) + 10 * fst (net (sub_image tc 1 x))
                      + fst (net (sub_image tc 2 x))) batch_fake,
          map (\<lambda>x. [snd (net (sub_image tc 0 x)), snd (net (sub_image tc 1 x)),
                     snd (net (sub_image tc 2 x))]) batch_fake,
          map (\<lambda>x. snd (net (sub_image tc 0 x)) > thresh \<and> snd (net (sub_image tc 1 x)) > thresh
                     \<and> snd (net (sub_image tc 2 x)) > thresh) batch_fake)) batches)"
  using assms by (induction batches) (simp_all add: classify_batch3_result)

lemma classify_mnist3_result:
  assumes "0 < tf_run_batch_size opts" and "fake \<noteq> []"
    and "list_all (splittable (mnist3_to_channels opts)) fake"
  shows "classify_mnist3 net opts fake =
     Inr (map (\<lambda>x. 100 * fst (net (sub_image (mnist3_to_channels opts) 0 x))
                     + 10 * fst (net (sub_image (mnist3_to_channels opts) 1 x))
                     + fst (net (sub_image (mnist3_to_channels opts) 2 x))) fake,
          map (\<lambda>x. [snd (net (sub_image (mnist3_to_channels opts) 0 x)),
                     snd (net (sub_image (mnist3_to_channels opts) 1 x)),
                     snd (net (sub_image (mnist3_to_channels opts) 2 x))]) fake,
          map (\<lambda>x. snd (net (sub_image (mnist3_to_channels opts) 0 x))
                       > digit_classification_threshold opts \<and>
                     snd (net (sub_image (mnist3_to_channels opts) 1 x))
                       > digit_classification_threshold opts \<and>
                     snd (net (sub_image (mnist3_to_channels opts) 2 x))
                       > digit_classification_threshold opts) fake)"
proof -
  from batch_slices_concat [OF assms(1), of fake] assms(2) obtain batches
    where b: "batch_slices (tf_run_batch_size opts) fake = Inr batches"
      "concat batches = fake" "batches \<noteq> []" by blast
  from assms(3) b(2) have "list_all (list_all (splittable (mnist3_to_channels opts))) batches"
    by (auto simp: list_all_iff)
  note run = run_batches3_result [OF this, of net "digit_classification_threshold opts"]
  show ?thesis
    using b by (simp add: classify_mnist3_def run np_stack_def comp_def map_concat [symmetric])
qed

subsection \<open>The metrics\<close>

lemma masked_map: "masked (map f xs) (map g xs) = map f (filter g xs)"
  by (induction xs) (simp_all add: masked_def)

lemma no_confident_iff:
  "length (filter (\<lambda>c. c) (map g xs)) = 0 \<longleftrightarrow> (\<forall>x\<in>set xs. \<not> g x)"
  by (auto simp: filter_empty_conv)

lemma np_mean_nonempty: "xs \<noteq> [] \<Longrightarrow> np_mean xs = Some (sum_list xs / real (length xs))"
  by (simp add: np_mean_def)

lemma sum_list_triples:
  "sum_list (concat (map (\<lambda>x. [f x, g x, h x]) xs)) = sum_list (map (\<lambda>x. f x + g x + h x) xs)"
  by (induction xs) (simp_all add: algebra_simps)

lemma length_triples: "length (concat (map (\<lambda>x. [f x, g x, h x]) xs)) = 3 * length xs"
  by (induction xs) simp_all

lemma np_percentile_lower:
  assumes ne: "xs \<noteq> []" and q: "0 \<le> q" "q \<le> 100"
    and t: "np_percentile xs q = Some t"
  shows "\<exists>x\<in>set xs. x \<le> t"
proof -
  let ?s = "sort xs"
  let ?n = "length xs"
  let ?pos = "q / 100 * real (?n - 1)"
  let ?below = "nat \<lfloor>?pos\<rfloor>"
  let ?above = "min (?below + 1) (?n - 1)"
  let ?w = "?pos - real ?below"
  from ne have n: "0 < ?n" by simp
  have pos0: "0 \<le> ?pos" using q(1) by simp
  have "?pos \<le> 1 * real (?n - 1)"
    using q by (intro mult_right_mono) simp_all
  then have posn: "?pos \<le> real (?n - 1)" by simp
  have fl: "real ?below = of_int \<lfloor>?pos\<rfloor>" using pos0 by simp
  have w0: "0 \<le> ?w" unfolding fl by linarith
  have w1: "?w \<le> 1" unfolding fl by linarith
  have "\<lfloor>?pos\<rfloor> \<le> int (?n - 1)" using posn by (simp add: floor_le_iff) 
  then have bl: "?below < ?n" using n by linarith
  have ab: "?above < ?n" using n by (intro min.strict_coboundedI2) simp
  have srt: "sorted ?s" by simp
  have bl': "?below < length ?s" using bl by (simp only: length_sort)
  have ab': "?above < length ?s" using ab by (simp only: length_sort)
  have lo1: "?s ! 0 \<le> ?s ! ?below"
    by (rule sorted_nth_mono [OF srt _ bl']) simp
  have lo2: "?s ! 0 \<le> ?s ! ?above"
    by (rule sorted_nth_mono [OF srt _ ab']) simp
  define w where "w = ?w"
  define a where "a = ?s ! ?below"
  define b where "b = ?s ! ?above"
  define c where "c = ?s ! 0"
  have facts: "c \<le> a" "c \<le> b" "0 \<le> w" "w \<le> 1"
    unfolding w_def a_def b_def c_def by (rule lo1, rule lo2, rule w0, rule w1)
  then have "c * (1 - w) + c * w \<le> a * (1 - w) + b * w"
    by (intro add_mono mult_right_mono) simp_all
  then have "c \<le> a * (1 - w) + b * w"
    by (simp add: algebra_simps)
  then have "?s ! 0 \<le> ?s ! ?below * (1 - ?w) + ?s ! ?above * ?w"
    unfolding w_def a_def b_def c_def .
  moreover have "t = ?s ! ?below * (1 - ?w) + ?s ! ?above * ?w"
    using t ne by (simp add: np_percentile_def Let_def)
  moreover have "?s ! 0 \<in> set xs"
    using n nth_mem [of 0 ?s] by simp
  ultimately show ?thesis by auto
qed

lemma mean_le_count:
  "xs \<noteq> [] \<Longrightarrow>
     mean_le xs t = Some (real (length (filter (\<lambda>x. x \<le> t) xs)) / real (length xs))"
  using mean_le_map [of xs "\<lambda>x. x" t] by simp

lemma fold_max_less:
  "(\<forall>x\<in>set xs. x < m) \<Longrightarrow> a < m \<Longrightarrow> fold max xs a < (m::nat)"
  by (induction xs arbitrary: a) simp_all

lemma length_np_bincount:
  "0 < m \<Longrightarrow> \<forall>x\<in>set xs. x < m \<Longrightarrow> length (np_bincount xs m) = m"
  using fold_max_less [of xs m 0] by (auto simp: np_bincount_def max_def)

lemma length_normalise: "length (normalise counts) = length counts"
  by (simp add: normalise_def)

lemma coverage_bound:
  assumes conf: "filter g xs \<noteq> []" and lab: "\<forall>x\<in>set xs. f x < 10"
    and res: "mode_metrics 10 (map f xs) (map g xs) conf = Inr (JS, C, C_actual, conf')"
  shows "C \<le> 9 / 10"
proof -
  let ?phat = "normalise (np_bincount (map f (filter g xs)) 10)"
  have len: "length ?phat = 10"
    using lab by (simp add: length_normalise length_np_bincount)
  then have ne: "?phat \<noteq> []" by auto
  from conf have some: "length (filter (\<lambda>c. c) (map g xs)) \<noteq> 0"
    by (simp add: no_confident_iff filter_empty_conv)
  from np_percentile_Some [OF ne, of 5] obtain t where t: "np_percentile ?phat 5 = Some t"
    by blast
  from np_percentile_lower [OF ne _ _ t] obtain p where p: "p \<in> set ?phat" "p \<le> t" by auto
  then have "filter (\<lambda>x. x \<le> t) ?phat \<noteq> []" by (auto simp: filter_empty_conv)
  then have cnt: "1 \<le> length (filter (\<lambda>x. x \<le> t) ?phat)"
    by (cases "filter (\<lambda>x. x \<le> t) ?phat") simp_all
  from res some t have "C = 1 - real (length (filter (\<lambda>x. x \<le> t) ?phat)) / real (length ?phat)"
    by (simp add: mode_metrics_def masked_map Let_def mean_le_count [OF ne])
  with cnt len show ?thesis by simp
qed

lemma batch_slices_nonpositive:
  assumes "batch_size < 0"
  shows "batch_slices batch_size xs = Inr []"
proof -
  have "real (length xs) / real_of_int batch_size \<le> 0"
    using assms by (simp add: divide_nonneg_neg)
  then have "\<lceil>real (length xs) / real_of_int batch_size\<rceil> \<le> 0"
    by (simp only: ceiling_le_zero)
  with assms show ?thesis by (simp add: batch_slices_def)
qed

lemma classify_mnist_returns:
  assumes "classify_mnist net opts fake = Inr r"
  shows "0 < tf_run_batch_size opts"
proof (rule ccontr)
  assume "\<not> 0 < tf_run_batch_size opts"
  then consider "tf_run_batch_size opts = 0" | "tf_run_batch_size opts < 0" by linarith
  then show False
  proof cases
    case 1
    with assms show False by (simp add: classify_mnist_def batch_slices_def)
  next
    case 2
    with assms show False
      by (simp add: classify_mnist_def batch_slices_nonpositive np_stack_def)
  qed
qed

lemma mode_metrics_none:
  "length (filter (\<lambda>c. c) flags) = 0 \<Longrightarrow> mode_metrics n digits flags conf = Inr (2, 0, 0, conf)"
  by (simp add: mode_metrics_def)

lemma rescale_unit_Nil_iff: "rescale_unit a = [] \<longleftrightarrow> a = []"
  by (simp add: rescale_unit_def)

lemma evaluate_mnist_modes:
  assumes bs: "0 < tf_run_batch_size opts" and ne: "fake_points \<noteq> []"
    and fake: "fake = (if input_normalize_sym opts then rescale_unit fake_points
                        else fake_points)"
  shows "evaluate_mnist (Some net) opts fake_points =
      mode_metrics 10 (map (\<lambda>x. fst (net x)) fake)
        (map (\<lambda>x. snd (net x) > digit_classification_threshold opts) fake)
        (sum_list (map (\<lambda>x. snd (net x)) fake) / real (length fake))"
proof -
  from ne fake have fne: "fake \<noteq> []" by (simp add: rescale_unit_Nil_iff)
  have len: "length fake = length fake_points" using fake by (simp add: rescale_unit_def)
  have "evaluate_mnist (Some net) opts fake_points =
      (case classify_mnist net opts fake of
         Inl e \<Rightarrow> Inl e
       | Inr (result, result_probs, result_is_confident) \<Rightarrow>
           if length result \<noteq> length fake_points then Inl AssertionError
           else if length result_probs \<noteq> length fake_points then Inl AssertionError
           else (case np_mean result_probs of
                   None \<Rightarrow> Inl NanValue
                 | Some conf \<Rightarrow> mode_metrics 10 result result_is_confident conf))"
    using ne fake by (simp add: evaluate_mnist_def Let_def)
  also have "\<dots> = mode_metrics 10 (map (\<lambda>x. fst (net x)) fake)
      (map (\<lambda>x. snd (net x) > digit_classification_threshold opts) fake)
      (sum_list (map (\<lambda>x. snd (net x)) fake) / real (length fake))"
    using fne by (simp add: classify_mnist_result [OF bs fne] len np_mean_nonempty)
  finally show ?thesis .
qed

lemma evaluate_mnist3_modes:
  assumes bs: "0 < tf_run_batch_size opts" and ne: "fake_points \<noteq> []"
    and fake: "fake = (if input_normalize_sym opts then rescale_unit fake_points
                        else fake_points)"
    and split: "list_all (splittable (mnist3_to_channels opts)) fake"
  shows "evaluate_mnist3 (Some net) opts fake_points =
      mode_metrics 1000
        (map (\<lambda>x. 100 * fst (net (sub_image (mnist3_to_channels opts) 0 x))
                   + 10 * fst (net (sub_image (mnist3_to_channels opts) 1 x))
                   + fst (net (sub_image (mnist3_to_channels opts) 2 x))) fake)
        (map (\<lambda>x. snd (net (sub_image (mnist3_to_channels opts) 0 x))
                     > digit_classification_threshold opts \<and>
                   snd (net (sub_image (mnist3_to_channels opts) 1 x))
                     > digit_classification_threshold opts \<and>
                   snd (net (sub_image (mnist3_to_channels opts) 2 x))
                     > digit_classification_threshold opts) fake)
        (sum_list (map (\<lambda>x. snd (net (sub_image (mnist3_to_channels opts) 0 x))
                            + snd (net (sub_image (mnist3_to_channels opts) 1 x))
                            + snd (net (sub_image (mnist3_to_channels opts) 2 x))) fake)
           / real (3 * length fake))"
proof -
  let ?tc = "mnist3_to_channels opts"
  let ?probs = "map (\<lambda>x. [snd (net (sub_image ?tc 0 x)), snd (net (sub_image ?tc 1 x)),
                   snd (net (sub_image ?tc 2 x))]) fake"
  let ?conf = "sum_list (map (\<lambda>x. snd (net (sub_image ?tc 0 x)) + snd (net (sub_image ?tc 1 x))
                              + snd (net (sub_image ?tc 2 x))) fake) / real (3 * length fake)"
  from ne fake have fne: "fake \<noteq> []" by (simp add: rescale_unit_Nil_iff)
  have len: "length fake = length fake_points" using fake by (simp add: rescale_unit_def)
  have cne: "concat ?probs \<noteq> []" using fne by (cases fake) simp_all
  have mean: "np_mean (concat ?probs) = Some ?conf"
    by (simp only: np_mean_nonempty [OF cne] sum_list_triples length_triples)
  have "evaluate_mnist3 (Some net) opts fake_points =
      (case classify_mnist3 net opts fake of
         Inl e \<Rightarrow> Inl e
       | Inr (result, result_probs, result_is_confident) \<Rightarrow>
           if length result \<noteq> length fake_points then Inl AssertionError
           else if length result_probs \<noteq> length fake_points then Inl AssertionError
           else (case np_mean (concat result_probs) of
                   None \<Rightarrow> Inl NanValue
                 | Some conf \<Rightarrow> mode_metrics 1000 result result_is_confident conf))"
    using ne fake by (simp add: evaluate_mnist3_def Let_def)
  also have "\<dots> = mode_metrics 1000
      (map (\<lambda>x. 100 * fst (net (sub_image ?tc 0 x)) + 10 * fst (net (sub_image ?tc 1 x))
                   + fst (net (sub_image ?tc 2 x))) fake)
      (map (\<lambda>x. snd (net (sub_image ?tc 0 x)) > digit_classification_threshold opts \<and>
                 snd (net (sub_image ?tc 1 x)) > digit_classification_threshold opts \<and>
                 snd (net (sub_image ?tc 2 x)) > digit_classification_threshold opts) fake)
      ?conf"
    by (simp only: classify_mnist3_result [OF bs fne split] sum.case prod.case length_map mean
          option.case len) simp
  finally show ?thesis .
qed

subsection \<open>The run on one image of every digit\<close>

lemma ten_digits_labels:
  "map (\<lambda>x. fst (pixel_net x)) ten_digits = [0, 1, 2, 3, 4, 5, 6, 7, 8, 9]"
  by (simp add: ten_digits_def digit_image_def pixel_net_def upt_rec)

lemma ten_digits_probs:
  "map (\<lambda>x. snd (pixel_net x)) ten_digits
     = [1, 1 / 2, 1 / 2, 1 / 2, 1 / 2, 1 / 2, 1 / 2, 1 / 2, 1 / 2, 1 / 2]"
  by (simp add: ten_digits_def digit_image_def pixel_net_def upt_rec)

lemma ten_digits_flags:
  "map (\<lambda>x. snd (pixel_net x) > 999 / 1000) ten_digits
     = [True, False, False, False, False, False, False, False, False, False]"
  by (simp add: ten_digits_def digit_image_def pixel_net_def upt_rec)

lemma bincount_all: "np_bincount [0, 1, 2, 3, 4, 5, 6, 7, 8, 9] 10 = [1, 1, 1, 1, 1, 1, 1, 1, 1, 1]"
  by (simp add: np_bincount_def upt_rec)

lemma bincount_zero: "np_bincount [0] 10 = [1, 0, 0, 0, 0, 0, 0, 0, 0, 0]"
  by (simp add: np_bincount_def upt_rec)

lemma uniform_ten: "uniform 10 10 = [1 / 10, 1 / 10, 1 / 10, 1 / 10, 1 / 10, 1 / 10, 1 / 10, 1 / 10, 1 / 10, 1 / 10]"
  by (simp add: uniform_def upt_rec)

lemma phat_all:
  "normalise (np_bincount [0, 1, 2, 3, 4, 5, 6, 7, 8, 9] 10)
     = [1 / 10, 1 / 10, 1 / 10, 1 / 10, 1 / 10, 1 / 10, 1 / 10, 1 / 10, 1 / 10, 1 / 10]"
  unfolding bincount_all by (simp add: normalise_def)

lemma phat_single: "normalise (np_bincount [0] 10) = [1, 0, 0, 0, 0, 0, 0, 0, 0, 0]"
  unfolding bincount_zero by (simp add: normalise_def)

lemma length_ten: "length [a0, a1, a2, a3, a4, a5, a6, a7, a8, a9] = 10"
  by simp

lemma js_all_digits: "js_div_uniform [0, 1, 2, 3, 4, 5, 6, 7, 8, 9] 10 = 0"
  unfolding js_div_uniform_def phat_all Let_def length_ten uniform_ten
  by (simp add: js_divergence_def kl_div_def kl_term_def)

lemma js_single_digit:
  "js_div_uniform [0] 10 = (ln (20 / 11) + (ln (2 / 11) / 10 + 9 * (ln 2 / 10))) / 2"
  unfolding js_div_uniform_def phat_single Let_def length_ten uniform_ten
  by (simp add: js_divergence_def kl_div_def kl_term_def)

lemma js_positive_aux:
  fixes A B D :: real
  assumes "0 < A" and "D < 10 * B"
  shows "0 < (A + ((B - D) / 10 + 9 * (B / 10))) / 2"
proof -
  have e: "(A + ((B - D) / 10 + 9 * (B / 10))) / 2 = (A + (10 * B - D) / 10) / 2"
    by (simp add: field_simps)
  have "0 < A + (10 * B - D) / 10"
    using assms by (intro add_pos_pos divide_pos_pos) simp_all
  then show ?thesis unfolding e by (rule half_gt_zero)
qed

lemma js_single_digit_pos: "0 < js_div_uniform [0] 10"
proof -
  have a: "0 < ln (20 / 11 :: real)" by simp
  have b: "ln (2 / 11 :: real) = ln 2 - ln 11" by (simp add: ln_div)
  have "ln (11 :: real) < ln (2 ^ 10)" by (subst ln_less_cancel_iff) simp_all
  also have "ln ((2 :: real) ^ 10) = real 10 * ln 2" by (rule ln_realpow)
  finally have c: "ln (11 :: real) < 10 * ln 2" by simp
  show ?thesis unfolding js_single_digit b by (rule js_positive_aux [OF a c])
qed

lemma percentile_single: "np_percentile [1, 0, 0, 0, 0, 0, 0, 0, 0, 0] 5 = Some 0"
  by (simp add: np_percentile_def)

lemma driver_opts_simps:
  "dataset (driver_opts kind) = kind"
  "input_normalize_sym (driver_opts kind) = False"
  "tf_run_batch_size (driver_opts kind) = 100"
  "digit_classification_threshold (driver_opts kind) = 999 / 1000"
  "mnist3_to_channels (driver_opts kind) = False"
  by (simp_all add: driver_opts_def)

lemma ten_digits_nonempty: "ten_digits \<noteq> []"
  by (simp add: ten_digits_def upt_rec)

lemma length_ten_digits: "length ten_digits = 10"
  by (simp add: ten_digits_def)

lemma masked_ten:
  "masked [a0, a1, a2, a3, a4, a5, a6, a7, a8, a9]
     [True, False, False, False, False, False, False, False, False, False] = [a0]"
  by (simp add: masked_def)

lemma mean_le_single: "mean_le [1, 0, 0, 0, 0, 0, 0, 0, 0, 0] 0 = Some (9 / 10)"
  by (simp add: mean_le_def np_mean_def)

lemma ten_digits_modes:
  "mode_metrics 10 [0, 1, 2, 3, 4, 5, 6, 7, 8, 9]
     [True, False, False, False, False, False, False, False, False, False] conf
     = Inr (0, 1 / 10, 1 / 10, conf)"
  unfolding mode_metrics_def masked_ten Let_def js_all_digits phat_single percentile_single
    mean_le_single
  by (simp add: np_unique_def mean_le_single)

lemma ten_digits_run:
  "evaluate_mnist (Some pixel_net) (driver_opts ''mnist'') ten_digits
     = Inr (0, 1 / 10, 1 / 10, 11 / 20)"
proof -
  have bs: "0 < tf_run_batch_size (driver_opts ''mnist'')" by (simp add: driver_opts_simps)
  have fake: "ten_digits = (if input_normalize_sym (driver_opts ''mnist'')
      then rescale_unit ten_digits else ten_digits)" by (simp add: driver_opts_simps)
  have "evaluate_mnist (Some pixel_net) (driver_opts ''mnist'') ten_digits =
      mode_metrics 10 [0, 1, 2, 3, 4, 5, 6, 7, 8, 9]
        [True, False, False, False, False, False, False, False, False, False]
        (sum_list [1, 1 / 2, 1 / 2, 1 / 2, 1 / 2, 1 / 2, 1 / 2, 1 / 2, 1 / 2, 1 / 2]
           / real (length ten_digits))"
    unfolding evaluate_mnist_modes [OF bs ten_digits_nonempty fake] driver_opts_simps
      ten_digits_labels ten_digits_probs ten_digits_flags ..
  then show ?thesis
    unfolding ten_digits_modes length_ten_digits by simp
qed

lemma length_np_bincount_ge: "m \<le> length (np_bincount xs m)"
  by (simp add: np_bincount_def)

lemma mode_metrics_some:
  assumes "filter g xs \<noteq> []"
  shows "\<exists>t. mode_metrics 10 (map f xs) (map g xs) conf
           = Inr (js_div_uniform (map f xs) 10,
                  1 - real (length (filter (\<lambda>x. x \<le> t)
                                      (normalise (np_bincount (map f (filter g xs)) 10))))
                        / real (length (normalise (np_bincount (map f (filter g xs)) 10))),
                  real (length (np_unique (map f (filter g xs)))) / real 10, conf)"
proof -
  let ?phat = "normalise (np_bincount (map f (filter g xs)) 10)"
  have "10 \<le> length ?phat"
    using length_np_bincount_ge [of 10 "map f (filter g xs)"] by (simp add: length_normalise)
  then have ne: "?phat \<noteq> []" by auto
  from assms have some: "length (filter (\<lambda>c. c) (map g xs)) \<noteq> 0"
    by (simp add: no_confident_iff filter_empty_conv)
  from np_percentile_Some [OF ne, of 5] obtain t where t: "np_percentile ?phat 5 = Some t"
    by blast
  have "mode_metrics 10 (map f xs) (map g xs) conf
           = Inr (js_div_uniform (map f xs) 10,
                  1 - real (length (filter (\<lambda>x. x \<le> t) ?phat)) / real (length ?phat),
                  real (length (np_unique (map f (filter g xs)))) / real 10, conf)"
    using some t by (simp add: mode_metrics_def masked_map Let_def mean_le_count [OF ne])
  then show ?thesis ..
qed

subsection \<open>Claims on the discrete evaluators\<close>

text \<open>
  C6: in the composite evaluator the label of every point is
  \<open>100 * label1 + 10 * label2 + label3\<close> of its three sub-images, each classified on its own,
  and the point is flagged confident exactly when all three confidences exceed the
  threshold; when the three sub-images of every point classify to 1, 2 and 3, every
  composite label is 123. The batch size is positive, the batch is not empty and the split
  axis divides by 3, so that the classification returns.
\<close>

theorem composite_label:
  assumes "0 < tf_run_batch_size opts" and "fake \<noteq> []"
    and "list_all (splittable (mnist3_to_channels opts)) fake"
  shows "\<exists>result result_probs result_is_confident.
     classify_mnist3 net opts fake = Inr (result, result_probs, result_is_confident) \<and>
     length result = length fake \<and> length result_is_confident = length fake \<and>
     (\<forall>i<length fake.
        result ! i = 100 * fst (net (sub_image (mnist3_to_channels opts) 0 (fake ! i)))
                     + 10 * fst (net (sub_image (mnist3_to_channels opts) 1 (fake ! i)))
                     + fst (net (sub_image (mnist3_to_channels opts) 2 (fake ! i))) \<and>
        (result_is_confident ! i \<longleftrightarrow>
           snd (net (sub_image (mnist3_to_channels opts) 0 (fake ! i)))
             > digit_classification_threshold opts \<and>
           snd (net (sub_image (mnist3_to_channels opts) 1 (fake ! i)))
             > digit_classification_threshold opts \<and>
           snd (net (sub_image (mnist3_to_channels opts) 2 (fake ! i)))
             > digit_classification_threshold opts)) \<and>
     ((\<forall>x\<in>set fake. fst (net (sub_image (mnist3_to_channels opts) 0 x)) = 1 \<and>
                     fst (net (sub_image (mnist3_to_channels opts) 1 x)) = 2 \<and>
                     fst (net (sub_image (mnist3_to_channels opts) 2 x)) = 3)
        \<longrightarrow> (\<forall>d\<in>set result. d = 123))"
  unfolding classify_mnist3_result [OF assms] by auto

theorem composite_label_witness:
  "\<exists>result result_probs result_is_confident.
     classify_mnist3 pixel_net (driver_opts ''mnist3'')
       [triple_image 1 2 3 1, triple_image 1 2 3 (1 / 2)]
       = Inr (result, result_probs, result_is_confident) \<and>
     result = [123, 123] \<and> result_is_confident = [True, False]"
proof -
  let ?fake = "[triple_image 1 2 3 1, triple_image 1 2 3 (1 / 2)]"
  have a: "0 < tf_run_batch_size (driver_opts ''mnist3'')" by (simp add: driver_opts_def)
  have b: "?fake \<noteq> []" by simp
  have c: "list_all (splittable (mnist3_to_channels (driver_opts ''mnist3''))) ?fake"
    by (simp add: driver_opts_def splittable_def triple_image_def)
  from composite_label [OF a b c, of pixel_net] obtain result result_probs result_is_confident
    where r: "classify_mnist3 pixel_net (driver_opts ''mnist3'') ?fake
                = Inr (result, result_probs, result_is_confident)"
      "length result = 2" "length result_is_confident = 2"
      "\<forall>i<2. result ! i = 100 * fst (pixel_net (sub_image False 0 (?fake ! i)))
                     + 10 * fst (pixel_net (sub_image False 1 (?fake ! i)))
                     + fst (pixel_net (sub_image False 2 (?fake ! i))) \<and>
        (result_is_confident ! i \<longleftrightarrow>
           snd (pixel_net (sub_image False 0 (?fake ! i))) > 999 / 1000 \<and>
           snd (pixel_net (sub_image False 1 (?fake ! i))) > 999 / 1000 \<and>
           snd (pixel_net (sub_image False 2 (?fake ! i))) > 999 / 1000)"
    by (auto simp: driver_opts_def)
  from r(4) have "result ! 0 = 123" "result ! 1 = 123"
    "result_is_confident ! 0" "\<not> result_is_confident ! 1"
    by (simp_all add: sub_image_def split_part_def triple_image_def pixel_net_def)
  with r(2,3) have "result = [123, 123]" "result_is_confident = [True, False]"
    by (auto simp: list_eq_iff_nth_eq less_Suc_eq numeral_2_eq_2)
  with r(1) show ?thesis by blast
qed

text \<open>
  C4: when no point is confident, both discrete evaluators return exactly
  \<open>(2, 0, 0, mean_confidence)\<close> and raise nothing, where \<open>mean_confidence\<close> is the mean of the
  confidence scores of all classified points (of all three sub-scores of all points in the
  composite variant). The evaluation has reached the classification: the model is loaded,
  the batch is not empty and the batch size is positive.
\<close>

theorem no_confident_sentinel:
  assumes bs: "0 < tf_run_batch_size opts" and ne: "fake_points \<noteq> []"
    and fake: "fake = (if input_normalize_sym opts then rescale_unit fake_points
                        else fake_points)"
  shows "((\<forall>x\<in>set fake. \<not> snd (net x) > digit_classification_threshold opts) \<longrightarrow>
      evaluate_mnist (Some net) opts fake_points =
        Inr (2, 0, 0, sum_list (map (\<lambda>x. snd (net x)) fake) / real (length fake))) \<and>
    (list_all (splittable (mnist3_to_channels opts)) fake \<and>
     (\<forall>x\<in>set fake. \<not> (snd (net (sub_image (mnist3_to_channels opts) 0 x))
                              > digit_classification_threshold opts \<and>
                            snd (net (sub_image (mnist3_to_channels opts) 1 x))
                              > digit_classification_threshold opts \<and>
                            snd (net (sub_image (mnist3_to_channels opts) 2 x))
                              > digit_classification_threshold opts)) \<longrightarrow>
      evaluate_mnist3 (Some net) opts fake_points =
        Inr (2, 0, 0,
             sum_list (map (\<lambda>x. snd (net (sub_image (mnist3_to_channels opts) 0 x))
                                + snd (net (sub_image (mnist3_to_channels opts) 1 x))
                                + snd (net (sub_image (mnist3_to_channels opts) 2 x))) fake)
               / real (3 * length fake)))"
proof (intro conjI impI)
  assume none: "\<forall>x\<in>set fake. \<not> snd (net x) > digit_classification_threshold opts"
  then have zero: "length (filter (\<lambda>c. c)
      (map (\<lambda>x. snd (net x) > digit_classification_threshold opts) fake)) = 0"
    by (simp only: no_confident_iff)
  show "evaluate_mnist (Some net) opts fake_points =
      Inr (2, 0, 0, sum_list (map (\<lambda>x. snd (net x)) fake) / real (length fake))"
    unfolding evaluate_mnist_modes [OF bs ne fake] by (rule mode_metrics_none [OF zero])
next
  let ?tc = "mnist3_to_channels opts"
  let ?th = "digit_classification_threshold opts"
  let ?flag = "\<lambda>x. snd (net (sub_image ?tc 0 x)) > ?th \<and> snd (net (sub_image ?tc 1 x)) > ?th
                    \<and> snd (net (sub_image ?tc 2 x)) > ?th"
  assume a: "list_all (splittable ?tc) fake \<and> (\<forall>x\<in>set fake. \<not> ?flag x)"
  then have split: "list_all (splittable ?tc) fake" and none: "\<forall>x\<in>set fake. \<not> ?flag x"
    by blast+
  from none have zero: "length (filter (\<lambda>c. c) (map ?flag fake)) = 0"
    by (simp only: no_confident_iff)
  show "evaluate_mnist3 (Some net) opts fake_points =
      Inr (2, 0, 0,
           sum_list (map (\<lambda>x. snd (net (sub_image ?tc 0 x)) + snd (net (sub_image ?tc 1 x))
                              + snd (net (sub_image ?tc 2 x))) fake)
             / real (3 * length fake))"
    unfolding evaluate_mnist3_modes [OF bs ne fake split] by (rule mode_metrics_none [OF zero])
qed

theorem no_confident_sentinel_witness:
  "evaluate_mnist (Some pixel_net) (driver_opts ''mnist'')
     [digit_image 3 (1 / 2), digit_image 4 (1 / 4)] = Inr (2, 0, 0, 3 / 8) \<and>
   evaluate_mnist3 (Some pixel_net) (driver_opts ''mnist3'')
     [triple_image 1 2 3 (1 / 2), triple_image 4 5 6 (1 / 4)] = Inr (2, 0, 0, 3 / 8)"
proof -
  let ?f1 = "[digit_image 3 (1 / 2), digit_image 4 (1 / 4)]"
  let ?f3 = "[triple_image 1 2 3 (1 / 2), triple_image 4 5 6 (1 / 4)]"
  have bs: "0 < tf_run_batch_size (driver_opts k)" for k by (simp add: driver_opts_simps)
  have fake: "f = (if input_normalize_sym (driver_opts k) then rescale_unit f else f)"
    for f k by (simp add: driver_opts_simps)
  have a: "\<forall>x\<in>set ?f1. \<not> snd (pixel_net x) > digit_classification_threshold (driver_opts ''mnist'')"
    by (simp add: driver_opts_simps digit_image_def pixel_net_def)
  have b: "list_all (splittable (mnist3_to_channels (driver_opts ''mnist3''))) ?f3 \<and>
     (\<forall>x\<in>set ?f3. \<not> (snd (pixel_net (sub_image (mnist3_to_channels (driver_opts ''mnist3'')) 0 x))
                              > digit_classification_threshold (driver_opts ''mnist3'') \<and>
                            snd (pixel_net (sub_image (mnist3_to_channels (driver_opts ''mnist3'')) 1 x))
                              > digit_classification_threshold (driver_opts ''mnist3'') \<and>
                            snd (pixel_net (sub_image (mnist3_to_channels (driver_opts ''mnist3'')) 2 x))
                              > digit_classification_threshold (driver_opts ''mnist3'')))"
    by (simp add: driver_opts_simps splittable_def sub_image_def split_part_def
          triple_image_def pixel_net_def)
  from no_confident_sentinel [OF bs _ fake, of ?f1 "''mnist''" pixel_net] a
  have "evaluate_mnist (Some pixel_net) (driver_opts ''mnist'') ?f1 = Inr (2, 0, 0, 3 / 8)"
    by (simp add: digit_image_def pixel_net_def)
  moreover from no_confident_sentinel [OF bs _ fake, of ?f3 "''mnist3''" pixel_net] b
  have "evaluate_mnist3 (Some pixel_net) (driver_opts ''mnist3'') ?f3 = Inr (2, 0, 0, 3 / 8)"
    by (simp add: driver_opts_simps sub_image_def split_part_def triple_image_def pixel_net_def)
  ultimately show ?thesis by simp
qed

text \<open>
  C10: in the single-label evaluator with labels among the 10 digits, whenever at least one
  prediction is confident the coverage returned is at most 0.9, and so never 1.
\<close>

theorem coverage_at_most_nine_tenths:
  assumes res: "evaluate_mnist (Some net) opts fake_points = Inr (JS, C, C_actual, conf)"
    and fake: "fake = (if input_normalize_sym opts then rescale_unit fake_points
                        else fake_points)"
    and some: "\<exists>x\<in>set fake. snd (net x) > digit_classification_threshold opts"
    and labels: "\<forall>x\<in>set fake. fst (net x) < 10"
  shows "C \<le> 9 / 10 \<and> C \<noteq> 1"
proof -
  from res have ne: "fake_points \<noteq> []"
    by (auto simp: evaluate_mnist_def)
  from res ne obtain r where
    "classify_mnist net opts (if input_normalize_sym opts then rescale_unit fake_points
                               else fake_points) = Inr r"
    by (auto simp: evaluate_mnist_def Let_def split: sum.splits)
  from classify_mnist_returns [OF this] have bs: "0 < tf_run_batch_size opts" .
  from res have m: "mode_metrics 10 (map (\<lambda>x. fst (net x)) fake)
        (map (\<lambda>x. snd (net x) > digit_classification_threshold opts) fake)
        (sum_list (map (\<lambda>x. snd (net x)) fake) / real (length fake))
      = Inr (JS, C, C_actual, conf)"
    by (simp only: evaluate_mnist_modes [OF bs ne fake])
  from some have "filter (\<lambda>x. snd (net x) > digit_classification_threshold opts) fake \<noteq> []"
    by (auto simp: filter_empty_conv)
  from coverage_bound [OF this labels m] show ?thesis by simp
qed

theorem coverage_at_most_nine_tenths_witness:
  "evaluate_mnist (Some pixel_net) (driver_opts ''mnist'') ten_digits
     = Inr (0, 1 / 10, 1 / 10, 11 / 20) \<and> (1 / 10 :: real) \<le> 9 / 10 \<and> (1 / 10 :: real) \<noteq> 1"
proof -
  have fake: "ten_digits = (if input_normalize_sym (driver_opts ''mnist'')
      then rescale_unit ten_digits else ten_digits)" by (simp add: driver_opts_simps)
  have some: "\<exists>x\<in>set ten_digits.
      snd (pixel_net x) > digit_classification_threshold (driver_opts ''mnist'')"
    by (simp add: ten_digits_def digit_image_def pixel_net_def driver_opts_simps upt_rec)
  have labels: "\<forall>x\<in>set ten_digits. fst (pixel_net x) < 10"
    by (simp add: ten_digits_def digit_image_def pixel_net_def upt_rec)
  from coverage_at_most_nine_tenths [OF ten_digits_run fake some labels] ten_digits_run
  show ?thesis by blast
qed

text \<open>
  C2, as stated, fails, at a batch with one image of every digit of which only the image of
  0 is classified with confidence: the evaluator passes all ten labels to
  \<^verbatim>\<open>js_div_uniform\<close>, whose histogram is then uniform, and returns the divergence 0, while
  the histogram of the confident predictions alone puts all its mass on the label 0 and
  has a strictly positive divergence from the uniform distribution.
\<close>

theorem js_confident_only_counterexample:
  "classify_mnist pixel_net (driver_opts ''mnist'') ten_digits =
     Inr ([0, 1, 2, 3, 4, 5, 6, 7, 8, 9],
          [1, 1 / 2, 1 / 2, 1 / 2, 1 / 2, 1 / 2, 1 / 2, 1 / 2, 1 / 2, 1 / 2],
          [True, False, False, False, False, False, False, False, False, False]) \<and>
   evaluate_mnist (Some pixel_net) (driver_opts ''mnist'') ten_digits
     = Inr (0, 1 / 10, 1 / 10, 11 / 20) \<and>
   masked [0, 1, 2, 3, 4, 5, 6, 7, 8, 9]
     [True, False, False, False, False, False, False, False, False, False] = [0::nat] \<and>
   0 < js_div_uniform [0] 10 \<and>
   js_div_uniform [0, 1, 2, 3, 4, 5, 6, 7, 8, 9] 10 = 0"
proof -
  have bs: "0 < tf_run_batch_size (driver_opts ''mnist'')" by (simp add: driver_opts_simps)
  have "classify_mnist pixel_net (driver_opts ''mnist'') ten_digits =
     Inr ([0, 1, 2, 3, 4, 5, 6, 7, 8, 9],
          [1, 1 / 2, 1 / 2, 1 / 2, 1 / 2, 1 / 2, 1 / 2, 1 / 2, 1 / 2, 1 / 2],
          [True, False, False, False, False, False, False, False, False, False])"
    unfolding classify_mnist_result [OF bs ten_digits_nonempty] driver_opts_simps
      ten_digits_labels ten_digits_probs ten_digits_flags ..
  then show ?thesis
    using ten_digits_run masked_ten [where ?'a = nat] js_single_digit_pos js_all_digits by blast
qed

text \<open>
  C2, amended: in the single-label evaluator, when at least one prediction is confident,
  the divergence returned is the Jensen-Shannon divergence between the uniform distribution
  over the 10 labels and the empirical histogram of the labels of all predictions, the
  confident and the others alike.
\<close>

theorem js_over_all_predictions:
  assumes bs: "0 < tf_run_batch_size opts" and ne: "fake_points \<noteq> []"
    and fake: "fake = (if input_normalize_sym opts then rescale_unit fake_points
                        else fake_points)"
    and some: "\<exists>x\<in>set fake. snd (net x) > digit_classification_threshold opts"
  shows "\<exists>C C_actual conf.
     evaluate_mnist (Some net) opts fake_points =
       Inr (js_div_uniform (map (\<lambda>x. fst (net x)) fake) 10, C, C_actual, conf)"
proof -
  from some have "filter (\<lambda>x. snd (net x) > digit_classification_threshold opts) fake \<noteq> []"
    by (auto simp: filter_empty_conv)
  from mode_metrics_some [OF this] show ?thesis
    unfolding evaluate_mnist_modes [OF bs ne fake] by blast
qed

theorem js_over_all_predictions_witness:
  "\<exists>C C_actual conf.
     evaluate_mnist (Some pixel_net) (driver_opts ''mnist'') ten_digits =
       Inr (js_div_uniform (map (\<lambda>x. fst (pixel_net x)) ten_digits) 10, C, C_actual, conf)"
proof -
  have bs: "0 < tf_run_batch_size (driver_opts ''mnist'')" by (simp add: driver_opts_simps)
  have fake: "ten_digits = (if input_normalize_sym (driver_opts ''mnist'')
      then rescale_unit ten_digits else ten_digits)" by (simp add: driver_opts_simps)
  have some: "\<exists>x\<in>set ten_digits.
      snd (pixel_net x) > digit_classification_threshold (driver_opts ''mnist'')"
    by (simp add: ten_digits_def digit_image_def pixel_net_def driver_opts_simps upt_rec)
  show ?thesis
    by (rule js_over_all_predictions [OF bs ten_digits_nonempty fake some])
qed

end
